theory Spec2Isabelle
  imports Main
begin

section \<open>The density clusterer of Muster (src/density.h)\<close>

text \<open>
  The class \<open>density\<close> holds the assignment array \<open>cluster_ids\<close> and the medoid list
  \<open>medoid_ids\<close> (both inherited from \<open>partition\<close>), the random-number members, the two
  parameters and the two counters. Indices and counters are \<open>size_t\<close>, and the labels are
  the three enumerators and values of the counter \<open>current_cluster_id_\<close>; a run on \<open>n\<close>
  objects starts at most \<open>n\<close> clusters, so no counter reaches the end of its range and
  they are modelled as natural numbers. The random-number generator and its adaptor are
  one field of an arbitrary type, the distance type is any type with a comparison \<open><\<close>.
  A name of Isabelle cannot end in an underscore: the member \<open>epsilon_\<close> of the source is
  the field \<open>epsilon_m\<close>, and so for \<open>random_\<close>, \<open>min_points_\<close>, \<open>current_cluster_id_\<close> and
  \<open>total_clusters_\<close>.
\<close>

definition UNCLASSIFIED :: nat where
  "UNCLASSIFIED = 0"

definition NOISE :: nat where
  "NOISE = 1"

definition FIRST_CLUSTER :: nat where
  "FIRST_CLUSTER = 2"

record ('d, 'r) density =
  cluster_ids :: "nat list"
  medoid_ids :: "nat list"
  random_m :: 'r
  epsilon_m :: 'd
  min_points_m :: nat
  current_cluster_id_m :: nat
  total_clusters_m :: nat

text \<open>
  The vectors are indexed with the unchecked \<open>operator[]\<close>. In the model every access
  tests its index, and a call whose access is out of range has the result \<open>None\<close>; the
  same value stands for a call that never returns.
\<close>

subsection \<open>epsilon_range_query\<close>

text \<open>
  The loop of \<open>epsilon_range_query\<close> over the indices still to visit, with the local list
  \<open>result\<close>. The index \<open>current_object\<close> is appended without a call of the metric.
\<close>

fun range_loop ::
  "'a list \<Rightarrow> ('a \<Rightarrow> 'a \<Rightarrow> 'd::ord) \<Rightarrow> 'd \<Rightarrow> nat \<Rightarrow> nat list \<Rightarrow> nat list \<Rightarrow> nat list option" where
  "range_loop objects dmetric eps current_object [] result = Some result"
| "range_loop objects dmetric eps current_object (i # rest) result =
     (if i = current_object then
        range_loop objects dmetric eps current_object rest (result @ [i])
      else if current_object < length objects \<and> i < length objects then
        (if dmetric (objects ! current_object) (objects ! i) < eps
         then range_loop objects dmetric eps current_object rest (result @ [i])
         else range_loop objects dmetric eps current_object rest result)
      else None)"

text \<open>The member function: it reads \<open>epsilon_m\<close> and returns its list; the state is handed back.\<close>

definition epsilon_range_query ::
  "'a list \<Rightarrow> ('a \<Rightarrow> 'a \<Rightarrow> 'd::ord) \<Rightarrow> nat \<Rightarrow> ('d, 'r) density
     \<Rightarrow> (nat list \<times> ('d, 'r) density) option" where
  "epsilon_range_query objects dmetric current_object st =
     (case range_loop objects dmetric (epsilon_m st) current_object [0..<length objects] [] of
        None \<Rightarrow> None
      | Some result \<Rightarrow> Some (result, st))"

subsection \<open>expand_cluster\<close>

text \<open>
  The first loop of \<open>expand_cluster\<close> (lines 134 to 144): every entry of \<open>seed_list\<close> gets
  the current cluster id, and \<open>current_object\<close> is erased from the list. The function
  takes the part of the list from the iterator on and returns the entries kept.
\<close>

fun assign_seeds ::
  "nat \<Rightarrow> nat list \<Rightarrow> ('d, 'r) density \<Rightarrow> (nat list \<times> ('d, 'r) density) option" where
  "assign_seeds current_object [] st = Some ([], st)"
| "assign_seeds current_object (current_seed # rest) st =
     (if current_seed < length (cluster_ids st) then
        (case assign_seeds current_object rest
                (st\<lparr>cluster_ids := (cluster_ids st)[current_seed := current_cluster_id_m st]\<rparr>) of
           None \<Rightarrow> None
         | Some (kept, st') \<Rightarrow>
             Some (if current_seed = current_object then kept else current_seed # kept, st'))
      else None)"

text \<open>
  The inner loop (lines 159 to 172) over the neighbourhood of one worklist entry: an
  unclassified neighbour is appended to \<open>seed_list\<close> and labelled, a noise neighbour is
  labelled only.
\<close>

fun absorb ::
  "nat list \<Rightarrow> nat list \<Rightarrow> ('d, 'r) density \<Rightarrow> (nat list \<times> ('d, 'r) density) option" where
  "absorb [] seed_list st = Some (seed_list, st)"
| "absorb (current_neighbour_neighbour # rest) seed_list st =
     (if current_neighbour_neighbour < length (cluster_ids st) then
        (if cluster_ids st ! current_neighbour_neighbour = UNCLASSIFIED \<or>
            cluster_ids st ! current_neighbour_neighbour = NOISE
         then
           absorb rest
             (if cluster_ids st ! current_neighbour_neighbour = UNCLASSIFIED
              then seed_list @ [current_neighbour_neighbour] else seed_list)
             (st\<lparr>cluster_ids :=
                  (cluster_ids st)[current_neighbour_neighbour := current_cluster_id_m st]\<rparr>)
         else absorb rest seed_list st)
      else None)"

text \<open>
  The body of the second loop (lines 151 to 174) for the entry under the iterator;
  \<open>seed_list\<close> is the part of the list behind that entry, where \<open>push_back\<close> appends.
\<close>

definition visit ::
  "'a list \<Rightarrow> ('a \<Rightarrow> 'a \<Rightarrow> 'd::ord) \<Rightarrow> nat \<Rightarrow> nat list \<Rightarrow> ('d, 'r) density
     \<Rightarrow> (nat list \<times> ('d, 'r) density) option" where
  "visit objects dmetric current_neighbour seed_list st =
     (case epsilon_range_query objects dmetric current_neighbour st of
        None \<Rightarrow> None
      | Some (neighbour_seed_list, st1) \<Rightarrow>
          if length neighbour_seed_list \<ge> min_points_m st1
          then absorb neighbour_seed_list seed_list st1
          else Some (seed_list, st1))"

text \<open>
  The second loop (lines 147 to 175). The iterator only moves forward and the entries
  before it are never read again, so the model keeps the list from the iterator on. The
  list grows while it is walked, and the loop need not end: the function is partial.
\<close>

partial_function (option) expand_seeds ::
  "'a list \<Rightarrow> ('a \<Rightarrow> 'a \<Rightarrow> 'd::ord) \<Rightarrow> nat list \<Rightarrow> ('d, 'r) density \<Rightarrow> ('d, 'r) density option" where
  "expand_seeds objects dmetric seed_list st =
     (case seed_list of
        [] \<Rightarrow> Some st
      | current_neighbour # rest \<Rightarrow>
          (case visit objects dmetric current_neighbour rest st of
             None \<Rightarrow> None
           | Some (seed_list', st') \<Rightarrow> expand_seeds objects dmetric seed_list' st'))"

declare expand_seeds.simps [code]

definition expand_cluster ::
  "'a list \<Rightarrow> ('a \<Rightarrow> 'a \<Rightarrow> 'd::ord) \<Rightarrow> nat \<Rightarrow> ('d, 'r) density
     \<Rightarrow> (bool \<times> ('d, 'r) density) option" where
  "expand_cluster objects dmetric current_object st =
     (case epsilon_range_query objects dmetric current_object st of
        None \<Rightarrow> None
      | Some (seed_list, st1) \<Rightarrow>
          if length seed_list < min_points_m st1 then
            (if current_object < length (cluster_ids st1)
             then Some (False, st1\<lparr>cluster_ids := (cluster_ids st1)[current_object := NOISE]\<rparr>)
             else None)
          else
            (case assign_seeds current_object seed_list st1 of
               None \<Rightarrow> None
             | Some (seed_list', st2) \<Rightarrow>
                 (case expand_seeds objects dmetric seed_list' st2 of
                    None \<Rightarrow> None
                  | Some st3 \<Rightarrow> Some (True, st3))))"

subsection \<open>dbscan\<close>

text \<open>The first loop of \<open>dbscan\<close>: one \<open>push_back\<close> for each object.\<close>

fun push_unclassified :: "nat \<Rightarrow> ('d, 'r) density \<Rightarrow> ('d, 'r) density" where
  "push_unclassified 0 st = st"
| "push_unclassified (Suc k) st =
     push_unclassified k (st\<lparr>cluster_ids := cluster_ids st @ [UNCLASSIFIED]\<rparr>)"

text \<open>The second loop of \<open>dbscan\<close>, over the indices still to visit.\<close>

fun dbscan_loop ::
  "'a list \<Rightarrow> ('a \<Rightarrow> 'a \<Rightarrow> 'd::ord) \<Rightarrow> nat list \<Rightarrow> ('d, 'r) density \<Rightarrow> ('d, 'r) density option" where
  "dbscan_loop objects dmetric [] st = Some st"
| "dbscan_loop objects dmetric (i # rest) st =
     (if i < length (cluster_ids st) then
        (if cluster_ids st ! i = UNCLASSIFIED then
           (case expand_cluster objects dmetric i st of
              None \<Rightarrow> None
            | Some (started, st') \<Rightarrow>
                if started then
                  dbscan_loop objects dmetric rest
                    (st'\<lparr>medoid_ids := medoid_ids st' @ [i],
                         current_cluster_id_m := current_cluster_id_m st' + 1,
                         total_clusters_m := total_clusters_m st' + 1\<rparr>)
                else dbscan_loop objects dmetric rest st')
         else dbscan_loop objects dmetric rest st)
      else None)"

definition dbscan_start ::
  "'a list \<Rightarrow> 'd \<Rightarrow> nat \<Rightarrow> ('d, 'r) density \<Rightarrow> ('d, 'r) density" where
  "dbscan_start objects epsilon min_points st =
     push_unclassified (length objects) (st\<lparr>epsilon_m := epsilon, min_points_m := min_points\<rparr>)"

definition dbscan ::
  "'a list \<Rightarrow> ('a \<Rightarrow> 'a \<Rightarrow> 'd::ord) \<Rightarrow> 'd \<Rightarrow> nat \<Rightarrow> ('d, 'r) density \<Rightarrow> ('d, 'r) density option" where
  "dbscan objects dmetric epsilon min_points st =
     dbscan_loop objects dmetric [0..<length objects] (dbscan_start objects epsilon min_points st)"

text \<open>
  Modelled from the spec: the constructor of \<open>density\<close> is declared in the header and
  defined elsewhere. By the spec the assignment array and the medoid list are created
  for one run, \<open>current_cluster_id\<close> starts at \<open>FIRST_CLUSTER\<close> and \<open>total_clusters\<close> counts
  the clusters discovered. The spec says nothing of the argument \<open>num_objects\<close> of the
  constructor (0 when omitted): the array of a new instance is taken to be empty. The
  parameters and the random-number members may hold anything.
\<close>

definition fresh :: "('d, 'r) density \<Rightarrow> bool" where
  "fresh st \<longleftrightarrow>
     cluster_ids st = [] \<and> medoid_ids st = [] \<and>
     current_cluster_id_m st = FIRST_CLUSTER \<and> total_clusters_m st = 0"

subsection \<open>Notions of the specification\<close>

text \<open>
  The epsilon-neighbourhood of the object at index \<open>i\<close>, in the words of the spec: the
  indices \<open>j\<close> with \<open>j = i\<close> or a distance strictly below epsilon, in ascending order.
\<close>

definition neighbourhood :: "'a list \<Rightarrow> ('a \<Rightarrow> 'a \<Rightarrow> 'd::ord) \<Rightarrow> 'd \<Rightarrow> nat \<Rightarrow> nat list" where
  "neighbourhood objects dmetric eps i =
     filter (\<lambda>j. j = i \<or> dmetric (objects ! i) (objects ! j) < eps) [0..<length objects]"

text \<open>A core point: its neighbourhood has at least \<open>min_points\<close> members.\<close>

definition core_point :: "'a list \<Rightarrow> ('a \<Rightarrow> 'a \<Rightarrow> 'd::ord) \<Rightarrow> 'd \<Rightarrow> nat \<Rightarrow> nat \<Rightarrow> bool" where
  "core_point objects dmetric eps min_points i \<longleftrightarrow>
     min_points \<le> length (neighbourhood objects dmetric eps i)"

text \<open>Writing the label \<open>c\<close> at every index of a list, one write after the other.\<close>

definition paint :: "nat list \<Rightarrow> nat \<Rightarrow> nat list \<Rightarrow> nat list" where
  "paint xs c ids = fold (\<lambda>x l. l[x := c]) xs ids"

text \<open>
  The indices still unclassified. Every turn of the second loop of \<open>expand_cluster\<close>
  either labels one of them or shortens the list to walk, which is why the loop ends.
\<close>

definition unclassified :: "nat list \<Rightarrow> nat set" where
  "unclassified ids = {x. x < length ids \<and> ids ! x = UNCLASSIFIED}"

definition expansion_order :: "((nat list \<times> ('d, 'r) density) \<times> (nat list \<times> ('d, 'r) density)) set" where
  "expansion_order =
     inv_image (less_than <*lex*> less_than)
       (\<lambda>(seed_list, st). (card (unclassified (cluster_ids st)), length seed_list))"

text \<open>
  Inputs of the examples: one-dimensional values with the absolute difference as metric,
  as in the scenarios of the spec, and an instance as the constructor leaves it.
\<close>

definition abs_diff :: "int \<Rightarrow> int \<Rightarrow> int" where
  "abs_diff x y = \<bar>x - y\<bar>"

definition new_density :: "(int, nat) density" where
  "new_density =
     \<lparr>cluster_ids = [], medoid_ids = [], random_m = 7, epsilon_m = 0, min_points_m = 0,
      current_cluster_id_m = FIRST_CLUSTER, total_clusters_m = 0\<rparr>"

text \<open>
  The state of the second scenario of the spec (values 0, 5, 5, 5) when the scan of
  \<open>dbscan\<close> begins, and a state in the middle of a run over the values 0, 0, 0, 7 whose
  first three entries are unclassified, noise and a member of cluster 2.
\<close>

definition scan_state :: "(int, unit) density" where
  "scan_state =
     \<lparr>cluster_ids = [0, 0, 0, 0], medoid_ids = [], random_m = (), epsilon_m = 1, min_points_m = 2,
      current_cluster_id_m = 2, total_clusters_m = 0\<rparr>"

definition mixed_state :: "(int, unit) density" where
  "mixed_state =
     \<lparr>cluster_ids = [0, 1, 2, 0], medoid_ids = [2], random_m = (), epsilon_m = 1, min_points_m = 2,
      current_cluster_id_m = 3, total_clusters_m = 1\<rparr>"


text \<open>The input of the counterexamples: two dense groups that share the border point 0.\<close>

definition two_groups :: "int list" where
  "two_groups = [-2, -2, -1, 0, 1, 2, 2]"

text \<open>
  The invariant behind density containment. A core point is closed when every member
  of its neighbourhood holds a cluster id and every core point among them holds the id
  of the point itself. During an expansion with the worklist \<open>seed_list\<close>, no core point
  is noise, every worklist entry holds the current cluster id, and every core point
  that holds a cluster id is on the worklist or closed.
\<close>

definition closed_core ::
  "'a list \<Rightarrow> ('a \<Rightarrow> 'a \<Rightarrow> 'd::ord) \<Rightarrow> 'd \<Rightarrow> nat \<Rightarrow> nat list \<Rightarrow> nat \<Rightarrow> bool" where
  "closed_core objects dmetric eps min_points ids x \<longleftrightarrow>
     (\<forall>y \<in> set (neighbourhood objects dmetric eps x).
        FIRST_CLUSTER \<le> ids ! y \<and>
        (core_point objects dmetric eps min_points y \<longrightarrow> ids ! y = ids ! x))"

definition expansion_inv ::
  "'a list \<Rightarrow> ('a \<Rightarrow> 'a \<Rightarrow> 'd::ord) \<Rightarrow> 'd \<Rightarrow> nat \<Rightarrow> nat \<Rightarrow> nat list \<Rightarrow> nat list \<Rightarrow> bool" where
  "expansion_inv objects dmetric eps min_points c seed_list ids \<longleftrightarrow>
     length ids = length objects \<and>
     (\<forall>x < length objects. core_point objects dmetric eps min_points x \<longrightarrow> ids ! x \<noteq> NOISE) \<and>
     (\<forall>w \<in> set seed_list. w < length objects \<and> ids ! w = c) \<and>
     (\<forall>x < length objects. core_point objects dmetric eps min_points x \<longrightarrow>
        FIRST_CLUSTER \<le> ids ! x \<longrightarrow>
        x \<in> set seed_list \<or> closed_core objects dmetric eps min_points ids x)"

text \<open>
  Every entry that holds a cluster id is supported: it holds the id of a core point that
  has it in its neighbourhood.
\<close>

definition supported ::
  "'a list \<Rightarrow> ('a \<Rightarrow> 'a \<Rightarrow> 'd::ord) \<Rightarrow> 'd \<Rightarrow> nat \<Rightarrow> nat list \<Rightarrow> bool" where
  "supported objects dmetric eps min_points ids \<longleftrightarrow>
     (\<forall>x < length objects. FIRST_CLUSTER \<le> ids ! x \<longrightarrow>
        (\<exists>p < length objects. core_point objects dmetric eps min_points p \<and>
           x \<in> set (neighbourhood objects dmetric eps p) \<and> ids ! p = ids ! x))"

text \<open>
  Eleven values with two dense groups: the core points at the indices 3 and 4 and at the
  indices 6 and 7, and between the groups the border point at index 5.
\<close>

definition shared_border :: "int list" where
  "shared_border = [-2, -2, -2, -1, -1, 0, 1, 1, 2, 2, 2]"

section \<open>Properties\<close>

subsection \<open>The loops in closed form\<close>

lemma paint_Nil [simp]: "paint [] c ids = ids"
  by (simp add: paint_def)

lemma paint_Cons [simp]: "paint (x # xs) c ids = paint xs c (ids[x := c])"
  by (simp add: paint_def)

lemma length_paint [simp]: "length (paint xs c ids) = length ids"
  by (induction xs arbitrary: ids) auto

lemma nth_paint:
  "x < length ids \<Longrightarrow> paint xs c ids ! x = (if x \<in> set xs then c else ids ! x)"
  by (induction xs arbitrary: ids) (auto simp: nth_list_update)

lemma range_loop_filter:
  assumes "current_object < length objects" and "\<forall>i \<in> set todo. i < length objects"
  shows "range_loop objects dmetric eps current_object todo result =
         Some (result @ filter (\<lambda>j. j = current_object \<or>
                   dmetric (objects ! current_object) (objects ! j) < eps) todo)"
  using assms(2) by (induction todo arbitrary: result) (auto simp: assms(1))

lemma epsilon_range_query_in_range:
  "current_object < length objects \<Longrightarrow>
   epsilon_range_query objects dmetric current_object st =
     Some (neighbourhood objects dmetric (epsilon_m st) current_object, st)"
  by (simp add: epsilon_range_query_def neighbourhood_def range_loop_filter)

lemma set_neighbourhood:
  "set (neighbourhood objects dmetric eps i) =
     {j. j < length objects \<and> (j = i \<or> dmetric (objects ! i) (objects ! j) < eps)}"
  by (auto simp: neighbourhood_def)

lemma distinct_neighbourhood [simp]: "distinct (neighbourhood objects dmetric eps i)"
  by (simp add: neighbourhood_def)

lemma sorted_neighbourhood: "sorted_wrt (<) (neighbourhood objects dmetric eps i)"
  unfolding neighbourhood_def by (rule sorted_wrt_filter) (simp add: sorted_wrt_upt)

lemma neighbourhood_bound: "j \<in> set (neighbourhood objects dmetric eps i) \<Longrightarrow> j < length objects"
  by (simp add: set_neighbourhood)

lemma self_in_neighbourhood: "i < length objects \<Longrightarrow> i \<in> set (neighbourhood objects dmetric eps i)"
  by (simp add: set_neighbourhood)

lemma assign_seeds_paint:
  "\<forall>s \<in> set seeds. s < length (cluster_ids st) \<Longrightarrow>
   assign_seeds current_object seeds st =
     Some (filter (\<lambda>s. s \<noteq> current_object) seeds,
           st\<lparr>cluster_ids := paint seeds (current_cluster_id_m st) (cluster_ids st)\<rparr>)"
  by (induction seeds arbitrary: st) auto

lemma absorb_paint:
  "\<forall>q \<in> set qs. q < length (cluster_ids st) \<Longrightarrow> distinct qs \<Longrightarrow>
   absorb qs seed_list st =
     Some (seed_list @ filter (\<lambda>q. cluster_ids st ! q = UNCLASSIFIED) qs,
           st\<lparr>cluster_ids :=
                paint (filter (\<lambda>q. cluster_ids st ! q = UNCLASSIFIED \<or> cluster_ids st ! q = NOISE) qs)
                  (current_cluster_id_m st) (cluster_ids st)\<rparr>)"
proof (induction qs arbitrary: seed_list st)
  case Nil
  then show ?case by simp
next
  case (Cons q qs)
  let ?st = "st\<lparr>cluster_ids := (cluster_ids st)[q := current_cluster_id_m st]\<rparr>"
  have same: "\<And>P. filter (\<lambda>x. P ((cluster_ids st)[q := current_cluster_id_m st] ! x)) qs
               = filter (\<lambda>x. P (cluster_ids st ! x)) qs"
    using Cons.prems by (intro filter_cong) (auto simp: nth_list_update)
  show ?case
  proof (cases "cluster_ids st ! q = UNCLASSIFIED \<or> cluster_ids st ! q = NOISE")
    case True
    have "absorb (q # qs) seed_list st =
            absorb qs (if cluster_ids st ! q = UNCLASSIFIED then seed_list @ [q] else seed_list) ?st"
      using True Cons.prems by simp
    also have "\<dots> = Some ((if cluster_ids st ! q = UNCLASSIFIED then seed_list @ [q] else seed_list)
                             @ filter (\<lambda>x. cluster_ids ?st ! x = UNCLASSIFIED) qs,
               ?st\<lparr>cluster_ids := paint (filter (\<lambda>x. cluster_ids ?st ! x = UNCLASSIFIED \<or>
                       cluster_ids ?st ! x = NOISE) qs) (current_cluster_id_m ?st) (cluster_ids ?st)\<rparr>)"
      using Cons.prems by (intro Cons.IH) auto
    finally show ?thesis
      using True same [of "\<lambda>l. l = UNCLASSIFIED"]
        same [of "\<lambda>l. l = UNCLASSIFIED \<or> l = NOISE"] by auto
  next
    case False
    then show ?thesis using Cons by simp
  qed
qed

lemma wf_expansion_order: "wf expansion_order"
  unfolding expansion_order_def by (intro wf_inv_image wf_lex_prod wf_less_than)

lemma finite_unclassified [simp]: "finite (unclassified ids)"
  by (simp add: unclassified_def)

lemma unclassified_paint:
  "c \<noteq> UNCLASSIFIED \<Longrightarrow> unclassified (paint xs c ids) = unclassified ids - set xs"
  by (auto simp: unclassified_def nth_paint split: if_splits)

lemma visit_in_range:
  assumes "p < length objects" and "length objects \<le> length (cluster_ids st)"
  shows "visit objects dmetric p seed_list st =
     Some (if core_point objects dmetric (epsilon_m st) (min_points_m st) p
           then (seed_list @ filter (\<lambda>q. cluster_ids st ! q = UNCLASSIFIED)
                               (neighbourhood objects dmetric (epsilon_m st) p),
                 st\<lparr>cluster_ids :=
                      paint (filter (\<lambda>q. cluster_ids st ! q = UNCLASSIFIED \<or> cluster_ids st ! q = NOISE)
                               (neighbourhood objects dmetric (epsilon_m st) p))
                        (current_cluster_id_m st) (cluster_ids st)\<rparr>)
           else (seed_list, st))"
proof -
  have "\<forall>q \<in> set (neighbourhood objects dmetric (epsilon_m st) p). q < length (cluster_ids st)"
    using assms(2) by (auto dest: neighbourhood_bound)
  then show ?thesis
    using assms(1)
    by (simp add: visit_def epsilon_range_query_in_range core_point_def absorb_paint)
qed

lemma expand_seeds_rule:
  assumes "wf R" and "I seed_list st"
    and step: "\<And>p rest s. I (p # rest) s \<Longrightarrow>
       \<exists>seed_list' s'. visit objects dmetric p rest s = Some (seed_list', s') \<and>
          I seed_list' s' \<and> ((seed_list', s'), (p # rest, s)) \<in> R"
  shows "\<exists>st'. expand_seeds objects dmetric seed_list st = Some st' \<and> I [] st'"
  using assms(1,2)
proof (induction "(seed_list, st)" arbitrary: seed_list st rule: wf_induct_rule)
  case less
  show ?case
  proof (cases seed_list)
    case Nil
    then show ?thesis using less.prems by (simp add: expand_seeds.simps)
  next
    case (Cons p rest)
    with less.prems step obtain seed_list' s' where
      v: "visit objects dmetric p rest st = Some (seed_list', s')"
      and i: "I seed_list' s'" and r: "((seed_list', s'), (seed_list, st)) \<in> R"
      by blast
    from less.hyps [OF r i] obtain st' where
      "expand_seeds objects dmetric seed_list' s' = Some st'" and "I [] st'" by blast
    then show ?thesis using v Cons
      by (subst expand_seeds.simps) simp
  qed
qed

lemma expand_seeds_invariant:
  fixes st :: "('d::ord, 'r) density"
  assumes range: "\<forall>p \<in> set seed_list. p < length objects"
      "length objects \<le> length (cluster_ids st)"
    and cid: "current_cluster_id_m st \<noteq> UNCLASSIFIED"
    and init: "J seed_list (cluster_ids st)"
    and core_step: "\<And>p rest ids.
       J (p # rest) ids \<Longrightarrow> p < length objects \<Longrightarrow> length ids = length (cluster_ids st) \<Longrightarrow>
       core_point objects dmetric (epsilon_m st) (min_points_m st) p \<Longrightarrow>
       J (rest @ filter (\<lambda>q. ids ! q = UNCLASSIFIED) (neighbourhood objects dmetric (epsilon_m st) p))
         (paint (filter (\<lambda>q. ids ! q = UNCLASSIFIED \<or> ids ! q = NOISE)
                   (neighbourhood objects dmetric (epsilon_m st) p))
            (current_cluster_id_m st) ids)"
    and border_step: "\<And>p rest ids.
       J (p # rest) ids \<Longrightarrow> p < length objects \<Longrightarrow> length ids = length (cluster_ids st) \<Longrightarrow>
       \<not> core_point objects dmetric (epsilon_m st) (min_points_m st) p \<Longrightarrow> J rest ids"
  shows "\<exists>ids'. expand_seeds objects dmetric seed_list st = Some (st\<lparr>cluster_ids := ids'\<rparr>) \<and>
           length ids' = length (cluster_ids st) \<and> J [] ids'"
proof -
  define I where "I = (\<lambda>sl (s :: ('d, 'r) density).
     (\<forall>p \<in> set sl. p < length objects) \<and> s = st\<lparr>cluster_ids := cluster_ids s\<rparr> \<and>
     length (cluster_ids s) = length (cluster_ids st) \<and> J sl (cluster_ids s))"
  have "\<exists>st'. expand_seeds objects dmetric seed_list st = Some st' \<and> I [] st'"
  proof (rule expand_seeds_rule [OF wf_expansion_order])
    show "I seed_list st" using range init by (simp add: I_def)
  next
    fix p rest and s :: "('d, 'r) density"
    assume a: "I (p # rest) s"
    let ?N = "neighbourhood objects dmetric (epsilon_m st) p"
    let ?new = "filter (\<lambda>q. cluster_ids s ! q = UNCLASSIFIED) ?N"
    let ?abs = "filter (\<lambda>q. cluster_ids s ! q = UNCLASSIFIED \<or> cluster_ids s ! q = NOISE) ?N"
    let ?ids = "paint ?abs (current_cluster_id_m st) (cluster_ids s)"
    from a have p: "p < length objects" and rest: "\<forall>q \<in> set rest. q < length objects"
      and s: "s = st\<lparr>cluster_ids := cluster_ids s\<rparr>"
      and len: "length (cluster_ids s) = length (cluster_ids st)"
      and J: "J (p # rest) (cluster_ids s)"
      by (auto simp: I_def)
    have fields: "epsilon_m s = epsilon_m st" "min_points_m s = min_points_m st"
      "current_cluster_id_m s = current_cluster_id_m st"
      by (subst s, simp)+
    have v: "visit objects dmetric p rest s =
       Some (if core_point objects dmetric (epsilon_m st) (min_points_m st) p
             then (rest @ ?new, s\<lparr>cluster_ids := ?ids\<rparr>) else (rest, s))"
      using visit_in_range [of p objects s dmetric rest] p range(2) len by (simp add: fields)
    show "\<exists>seed_list' s'. visit objects dmetric p rest s = Some (seed_list', s') \<and>
          I seed_list' s' \<and> ((seed_list', s'), (p # rest, s)) \<in> expansion_order"
    proof (cases "core_point objects dmetric (epsilon_m st) (min_points_m st) p")
      case False
      have "I rest s"
        using border_step [OF J p len False] rest s len by (simp add: I_def)
      moreover have "((rest, s), (p # rest, s)) \<in> expansion_order"
        by (simp add: expansion_order_def)
      ultimately show ?thesis using v False by simp
    next
      case True
      have s': "s\<lparr>cluster_ids := ?ids\<rparr> = st\<lparr>cluster_ids := ?ids\<rparr>"
        by (subst s) simp
      have "I (rest @ ?new) (s\<lparr>cluster_ids := ?ids\<rparr>)"
        using core_step [OF J p len True] rest len
        by (auto simp: I_def s' dest: neighbourhood_bound)
      moreover have "((rest @ ?new, s\<lparr>cluster_ids := ?ids\<rparr>), (p # rest, s)) \<in> expansion_order"
      proof (cases "?new = []")
        case True
        have "unclassified ?ids \<subseteq> unclassified (cluster_ids s)"
          by (simp add: unclassified_paint cid)
        then have "card (unclassified ?ids) \<le> card (unclassified (cluster_ids s))"
          by (simp add: card_mono)
        then show ?thesis using True by (auto simp: expansion_order_def)
      next
        case False
        then obtain q where q: "q \<in> set ?N" "cluster_ids s ! q = UNCLASSIFIED"
          by (auto simp: filter_empty_conv)
        then have "q < length (cluster_ids s)"
          using range(2) len by (auto dest: neighbourhood_bound)
        with q have "q \<in> unclassified (cluster_ids s)" "q \<notin> unclassified ?ids"
          by (auto simp: unclassified_paint cid) (simp add: unclassified_def)
        then have "unclassified ?ids \<subset> unclassified (cluster_ids s)"
          by (auto simp: unclassified_paint cid)
        then have "card (unclassified ?ids) < card (unclassified (cluster_ids s))"
          by (simp add: psubset_card_mono)
        then show ?thesis by (simp add: expansion_order_def)
      qed
      ultimately show ?thesis using v True by simp
    qed
  qed
  then obtain st' where e: "expand_seeds objects dmetric seed_list st = Some st'" and "I [] st'"
    by blast
  then have "st' = st\<lparr>cluster_ids := cluster_ids st'\<rparr>"
    "length (cluster_ids st') = length (cluster_ids st)" "J [] (cluster_ids st')"
    by (simp_all add: I_def)
  then show ?thesis using e by metis
qed

lemma expand_seeds_frame:
  fixes st :: "('d::ord, 'r) density"
  assumes "\<forall>p \<in> set seed_list. p < length objects"
    and "length objects \<le> length (cluster_ids st)"
    and "current_cluster_id_m st \<noteq> UNCLASSIFIED"
  shows "\<exists>ids'. expand_seeds objects dmetric seed_list st = Some (st\<lparr>cluster_ids := ids'\<rparr>) \<and>
           length ids' = length (cluster_ids st) \<and>
           (\<forall>x < length ids'. ids' ! x = cluster_ids st ! x \<or>
              ((cluster_ids st ! x = UNCLASSIFIED \<or> cluster_ids st ! x = NOISE) \<and>
               ids' ! x = current_cluster_id_m st))"
proof -
  define J where "J = (\<lambda>(sl :: nat list) ids. \<forall>x < length ids. ids ! x = cluster_ids st ! x \<or>
              ((cluster_ids st ! x = UNCLASSIFIED \<or> cluster_ids st ! x = NOISE) \<and>
               ids ! x = current_cluster_id_m st))"
  have "\<exists>ids'. expand_seeds objects dmetric seed_list st = Some (st\<lparr>cluster_ids := ids'\<rparr>) \<and>
           length ids' = length (cluster_ids st) \<and> J [] ids'"
  proof (rule expand_seeds_invariant [OF assms])
    show "J seed_list (cluster_ids st)" by (simp add: J_def)
  next
    fix p rest ids
    assume "J (p # rest) ids"
    then show "J (rest @ filter (\<lambda>q. ids ! q = UNCLASSIFIED) (neighbourhood objects dmetric (epsilon_m st) p))
         (paint (filter (\<lambda>q. ids ! q = UNCLASSIFIED \<or> ids ! q = NOISE)
                   (neighbourhood objects dmetric (epsilon_m st) p))
            (current_cluster_id_m st) ids)"
      unfolding J_def by (auto simp: nth_paint)
  next
    fix p rest ids
    assume "J (p # rest) ids"
    then show "J rest ids" by (simp add: J_def)
  qed
  then show ?thesis by (simp add: J_def)
qed

lemma expand_cluster_in_range:
  assumes "i < length objects" and "length objects \<le> length (cluster_ids st)"
  shows "expand_cluster objects dmetric i st =
     (if core_point objects dmetric (epsilon_m st) (min_points_m st) i then
        (case expand_seeds objects dmetric
                (filter (\<lambda>s. s \<noteq> i) (neighbourhood objects dmetric (epsilon_m st) i))
                (st\<lparr>cluster_ids := paint (neighbourhood objects dmetric (epsilon_m st) i)
                                     (current_cluster_id_m st) (cluster_ids st)\<rparr>) of
           None \<Rightarrow> None
         | Some st3 \<Rightarrow> Some (True, st3))
      else Some (False, st\<lparr>cluster_ids := (cluster_ids st)[i := NOISE]\<rparr>))"
proof -
  have "\<forall>q \<in> set (neighbourhood objects dmetric (epsilon_m st) i). q < length (cluster_ids st)"
    using assms(2) by (auto dest: neighbourhood_bound)
  then show ?thesis
    using assms
    by (simp add: expand_cluster_def epsilon_range_query_in_range core_point_def
        assign_seeds_paint not_less)
qed

lemma expand_cluster_summary:
  fixes st :: "('d::ord, 'r) density"
  assumes "i < length objects" and "length objects \<le> length (cluster_ids st)"
    and "current_cluster_id_m st \<noteq> UNCLASSIFIED"
  shows "\<exists>ids'. expand_cluster objects dmetric i st =
           Some (core_point objects dmetric (epsilon_m st) (min_points_m st) i,
                 st\<lparr>cluster_ids := ids'\<rparr>) \<and>
         length ids' = length (cluster_ids st) \<and>
         (if core_point objects dmetric (epsilon_m st) (min_points_m st) i then
            (\<forall>q \<in> set (neighbourhood objects dmetric (epsilon_m st) i).
                ids' ! q = current_cluster_id_m st) \<and>
            (\<forall>x < length ids'. ids' ! x = cluster_ids st ! x \<or> ids' ! x = current_cluster_id_m st) \<and>
            (\<forall>x < length ids'. x \<notin> set (neighbourhood objects dmetric (epsilon_m st) i) \<longrightarrow>
                FIRST_CLUSTER \<le> cluster_ids st ! x \<longrightarrow> ids' ! x = cluster_ids st ! x)
          else ids' = (cluster_ids st)[i := NOISE])"
proof (cases "core_point objects dmetric (epsilon_m st) (min_points_m st) i")
  case False
  then show ?thesis using assms by (simp add: expand_cluster_in_range)
next
  case True
  let ?N = "neighbourhood objects dmetric (epsilon_m st) i"
  let ?ids = "paint ?N (current_cluster_id_m st) (cluster_ids st)"
  have n: "\<forall>q \<in> set ?N. q < length (cluster_ids st)"
    using assms(2) by (auto dest: neighbourhood_bound)
  have "\<exists>ids'. expand_seeds objects dmetric (filter (\<lambda>s. s \<noteq> i) ?N) (st\<lparr>cluster_ids := ?ids\<rparr>) =
           Some (st\<lparr>cluster_ids := ids'\<rparr>) \<and>
           length ids' = length (cluster_ids st) \<and>
           (\<forall>x < length ids'. ids' ! x = ?ids ! x \<or>
              ((?ids ! x = UNCLASSIFIED \<or> ?ids ! x = NOISE) \<and> ids' ! x = current_cluster_id_m st))"
    using expand_seeds_frame [of "filter (\<lambda>s. s \<noteq> i) ?N" objects "st\<lparr>cluster_ids := ?ids\<rparr>" dmetric]
      assms by (auto dest: neighbourhood_bound)
  then obtain ids' where e: "expand_seeds objects dmetric (filter (\<lambda>s. s \<noteq> i) ?N)
           (st\<lparr>cluster_ids := ?ids\<rparr>) = Some (st\<lparr>cluster_ids := ids'\<rparr>)"
    and len: "length ids' = length (cluster_ids st)"
    and fr: "\<forall>x < length ids'. ids' ! x = ?ids ! x \<or>
              ((?ids ! x = UNCLASSIFIED \<or> ?ids ! x = NOISE) \<and> ids' ! x = current_cluster_id_m st)"
    by blast
  have a: "\<forall>q \<in> set ?N. ids' ! q = current_cluster_id_m st"
    using fr n len by (auto simp: nth_paint)
  have b: "\<forall>x < length ids'. ids' ! x = cluster_ids st ! x \<or> ids' ! x = current_cluster_id_m st"
    using fr len by (auto simp: nth_paint split: if_splits)
  have c: "\<forall>x < length ids'. x \<notin> set ?N \<longrightarrow>
                FIRST_CLUSTER \<le> cluster_ids st ! x \<longrightarrow> ids' ! x = cluster_ids st ! x"
    using fr len by (auto simp: nth_paint UNCLASSIFIED_def NOISE_def FIRST_CLUSTER_def)
  have "expand_cluster objects dmetric i st = Some (True, st\<lparr>cluster_ids := ids'\<rparr>)"
    using True assms e by (simp add: expand_cluster_in_range)
  then show ?thesis
    using True len a b c by (intro exI [of _ ids']) simp
qed

subsection \<open>The neighbourhood query\<close>

text \<open>
  C4. For an index \<open>i\<close> of the object sequence, \<open>epsilon_range_query\<close> returns exactly the
  indices \<open>j\<close> with \<open>j = i\<close> or a distance from object \<open>i\<close> to object \<open>j\<close> strictly below
  \<open>epsilon\<close>, in ascending order, whatever the metric says on the pair \<open>(i, i)\<close>, and it
  hands the state of the clusterer back as it got it.
\<close>

theorem epsilon_range_query_exact:
  assumes "i < length objects"
  shows "\<exists>result. epsilon_range_query objects dmetric i st = Some (result, st) \<and>
           set result = {j. j < length objects \<and>
                            (j = i \<or> dmetric (objects ! i) (objects ! j) < epsilon_m st)} \<and>
           sorted_wrt (<) result"
  using assms
  by (simp add: epsilon_range_query_in_range set_neighbourhood sorted_neighbourhood)

theorem epsilon_range_query_exact_witness:
  "(0::nat) < length [0, 1, 2, 0 :: int] \<and>
   epsilon_range_query [0, 1, 2, 0] abs_diff 0 (new_density\<lparr>epsilon_m := 2\<rparr>) =
     Some ([0, 1, 3], new_density\<lparr>epsilon_m := 2\<rparr>) \<and>
   {j. j < length [0, 1, 2, 0 :: int] \<and>
       (j = 0 \<or> abs_diff ([0, 1, 2, 0] ! 0) ([0, 1, 2, 0] ! j) < epsilon_m (new_density\<lparr>epsilon_m := 2\<rparr>))}
     = {0, 1, 3}"
proof -
  have h: "(0::nat) < length [0, 1, 2, 0 :: int]" by simp
  have e: "epsilon_range_query [0, 1, 2, 0] abs_diff 0 (new_density\<lparr>epsilon_m := 2\<rparr>) =
     Some ([0, 1, 3], new_density\<lparr>epsilon_m := 2\<rparr>)"
    by code_simp
  from epsilon_range_query_exact [OF h, of abs_diff "new_density\<lparr>epsilon_m := 2\<rparr>"] e
  have "{j. j < length [0, 1, 2, 0 :: int] \<and>
       (j = 0 \<or> abs_diff ([0, 1, 2, 0] ! 0) ([0, 1, 2, 0] ! j) < epsilon_m (new_density\<lparr>epsilon_m := 2\<rparr>))}
     = set [0, 1, 3]"
    by auto
  with h e show ?thesis by simp
qed

subsection \<open>One turn of the worklist loop\<close>

text \<open>
  C6. One turn of the second loop of \<open>expand_cluster\<close>, for the worklist entry \<open>p\<close>. When
  the neighbourhood of \<open>p\<close> has at least \<open>min_points\<close> members, every unclassified member
  is appended to the worklist and gets the current cluster id, every noise member gets
  the current cluster id and is not appended, and a member that holds a cluster id
  keeps it. When the neighbourhood is smaller, the worklist and the assignment array
  stay as they are.
\<close>

theorem visit_absorbs:
  assumes "p < length objects" and "length objects \<le> length (cluster_ids st)"
  shows "\<exists>seed_list' ids'.
     visit objects dmetric p seed_list st = Some (seed_list', st\<lparr>cluster_ids := ids'\<rparr>) \<and>
     length ids' = length (cluster_ids st) \<and>
     (if min_points_m st \<le> length (neighbourhood objects dmetric (epsilon_m st) p) then
        seed_list' = seed_list @ filter (\<lambda>q. cluster_ids st ! q = UNCLASSIFIED)
                                   (neighbourhood objects dmetric (epsilon_m st) p) \<and>
        (\<forall>q \<in> set (neighbourhood objects dmetric (epsilon_m st) p).
           (cluster_ids st ! q = UNCLASSIFIED \<longrightarrow> ids' ! q = current_cluster_id_m st) \<and>
           (cluster_ids st ! q = NOISE \<longrightarrow> ids' ! q = current_cluster_id_m st) \<and>
           (FIRST_CLUSTER \<le> cluster_ids st ! q \<longrightarrow> ids' ! q = cluster_ids st ! q))
      else seed_list' = seed_list \<and> ids' = cluster_ids st)"
proof (cases "core_point objects dmetric (epsilon_m st) (min_points_m st) p")
  case False
  then have "visit objects dmetric p seed_list st = Some (seed_list, st\<lparr>cluster_ids := cluster_ids st\<rparr>)"
    using assms by (simp add: visit_in_range)
  then show ?thesis
    using False unfolding core_point_def
    by (intro exI [of _ seed_list] exI [of _ "cluster_ids st"]) simp
next
  case True
  let ?N = "neighbourhood objects dmetric (epsilon_m st) p"
  let ?ids = "paint (filter (\<lambda>q. cluster_ids st ! q = UNCLASSIFIED \<or> cluster_ids st ! q = NOISE) ?N)
                (current_cluster_id_m st) (cluster_ids st)"
  have n: "\<forall>q \<in> set ?N. q < length (cluster_ids st)"
    using assms(2) by (auto dest: neighbourhood_bound)
  have v: "visit objects dmetric p seed_list st =
      Some (seed_list @ filter (\<lambda>q. cluster_ids st ! q = UNCLASSIFIED) ?N, st\<lparr>cluster_ids := ?ids\<rparr>)"
    using True assms by (simp add: visit_in_range)
  have "\<forall>q \<in> set ?N.
           (cluster_ids st ! q = UNCLASSIFIED \<longrightarrow> ?ids ! q = current_cluster_id_m st) \<and>
           (cluster_ids st ! q = NOISE \<longrightarrow> ?ids ! q = current_cluster_id_m st) \<and>
           (FIRST_CLUSTER \<le> cluster_ids st ! q \<longrightarrow> ?ids ! q = cluster_ids st ! q)"
    using n by (auto simp: nth_paint UNCLASSIFIED_def NOISE_def FIRST_CLUSTER_def)
  with v True show ?thesis
    unfolding core_point_def by (intro exI [of _ "seed_list @ _"] exI [of _ ?ids]) simp
qed

theorem visit_absorbs_witness:
  "(0::nat) < length [0, 0, 0, 7 :: int] \<and>
   length [0, 0, 0, 7 :: int] \<le> length (cluster_ids mixed_state) \<and>
   visit [0, 0, 0, 7] abs_diff 0 [1] mixed_state =
     Some ([1, 0], mixed_state\<lparr>cluster_ids := [3, 3, 2, 0]\<rparr>)"
proof -
  have h: "(0::nat) < length [0, 0, 0, 7 :: int]"
    "length [0, 0, 0, 7 :: int] \<le> length (cluster_ids mixed_state)"
    by (simp_all add: mixed_state_def)
  have v: "visit [0, 0, 0, 7] abs_diff 0 [1] mixed_state =
     Some ([1, 0], mixed_state\<lparr>cluster_ids := [3, 3, 2, 0]\<rparr>)"
    by code_simp
  from visit_absorbs [OF h, of abs_diff "[1]"] v
  have "length [3, 3, 2, 0 :: nat] = length (cluster_ids mixed_state)"
    by (auto simp: mixed_state_def)
  with h v show ?thesis by (simp add: mixed_state_def)
qed

subsection \<open>The verdict of expand_cluster\<close>

text \<open>
  C5. Called on an index of the object sequence, with an assignment array that has an
  entry for every object and a current cluster id other than \<open>UNCLASSIFIED\<close> (the
  constructor starts it at \<open>FIRST_CLUSTER\<close> and \<open>dbscan\<close> only increments it),
  \<open>expand_cluster\<close> returns. It returns false exactly when the neighbourhood of the seed
  has fewer than \<open>min_points\<close> members, and then the state it leaves is the state it got
  with NOISE written at the seed's entry and nothing else changed.
\<close>

theorem expand_cluster_false_iff:
  fixes st :: "('d::ord, 'r) density"
  assumes "i < length objects" and "length objects \<le> length (cluster_ids st)"
    and "current_cluster_id_m st \<noteq> UNCLASSIFIED"
  shows "\<exists>started st'. expand_cluster objects dmetric i st = Some (started, st') \<and>
     (\<not> started \<longleftrightarrow> length (neighbourhood objects dmetric (epsilon_m st) i) < min_points_m st) \<and>
     (\<not> started \<longrightarrow> st' = st\<lparr>cluster_ids := (cluster_ids st)[i := NOISE]\<rparr>)"
proof -
  from expand_cluster_summary [OF assms, of dmetric] obtain ids' where
    e: "expand_cluster objects dmetric i st =
           Some (core_point objects dmetric (epsilon_m st) (min_points_m st) i,
                 st\<lparr>cluster_ids := ids'\<rparr>)"
    and n: "\<not> core_point objects dmetric (epsilon_m st) (min_points_m st) i \<longrightarrow>
              ids' = (cluster_ids st)[i := NOISE]"
    by (auto split: if_splits)
  show ?thesis
    using e n by (auto simp: core_point_def)
qed

theorem expand_cluster_false_iff_witness:
  "(0::nat) < length [0, 5, 5, 5 :: int] \<and>
   length [0, 5, 5, 5 :: int] \<le> length (cluster_ids scan_state) \<and>
   current_cluster_id_m scan_state \<noteq> UNCLASSIFIED \<and>
   length (neighbourhood [0, 5, 5, 5] abs_diff (epsilon_m scan_state) 0) < min_points_m scan_state \<and>
   expand_cluster [0, 5, 5, 5] abs_diff 0 scan_state =
     Some (False, scan_state\<lparr>cluster_ids := [NOISE, 0, 0, 0]\<rparr>)"
proof -
  have h: "(0::nat) < length [0, 5, 5, 5 :: int]"
    "length [0, 5, 5, 5 :: int] \<le> length (cluster_ids scan_state)"
    "current_cluster_id_m scan_state \<noteq> UNCLASSIFIED"
    by (simp_all add: scan_state_def UNCLASSIFIED_def)
  have n: "length (neighbourhood [0, 5, 5, 5] abs_diff (epsilon_m scan_state) 0) < min_points_m scan_state"
    by code_simp
  from expand_cluster_false_iff [OF h, of abs_diff] n
  have "expand_cluster [0, 5, 5, 5] abs_diff 0 scan_state =
     Some (False, scan_state\<lparr>cluster_ids := (cluster_ids scan_state)[0 := NOISE]\<rparr>)"
    by auto
  with h n show ?thesis by (simp add: scan_state_def)
qed

subsection \<open>The scan of dbscan\<close>

lemma push_unclassified_replicate:
  "push_unclassified k st = st\<lparr>cluster_ids := cluster_ids st @ replicate k UNCLASSIFIED\<rparr>"
  by (induction k arbitrary: st) (simp_all add: replicate_app_Cons_same)

lemma dbscan_start_fields [simp]:
  "cluster_ids (dbscan_start objects epsilon min_points st) =
     cluster_ids st @ replicate (length objects) UNCLASSIFIED"
  "medoid_ids (dbscan_start objects epsilon min_points st) = medoid_ids st"
  "random_m (dbscan_start objects epsilon min_points st) = random_m st"
  "epsilon_m (dbscan_start objects epsilon min_points st) = epsilon"
  "min_points_m (dbscan_start objects epsilon min_points st) = min_points"
  "current_cluster_id_m (dbscan_start objects epsilon min_points st) = current_cluster_id_m st"
  "total_clusters_m (dbscan_start objects epsilon min_points st) = total_clusters_m st"
  by (simp_all add: dbscan_start_def push_unclassified_replicate)

lemma dbscan_loop_append:
  "dbscan_loop objects dmetric (xs @ ys) st =
     (case dbscan_loop objects dmetric xs st of
        None \<Rightarrow> None
      | Some st' \<Rightarrow> dbscan_loop objects dmetric ys st')"
  by (induction xs arbitrary: st) (auto split: option.splits)


lemma dbscan_scan_rule:
  fixes st :: "('d::ord, 'r) density"
  assumes "j \<le> n" and "n \<le> length objects" and "length objects \<le> length (cluster_ids st)"
    and "current_cluster_id_m st \<noteq> UNCLASSIFIED"
    and "I j st"
    and skip: "\<And>k s. I k s \<Longrightarrow> k < n \<Longrightarrow>
       length objects \<le> length (cluster_ids s) \<Longrightarrow> current_cluster_id_m s \<noteq> UNCLASSIFIED \<Longrightarrow>
       cluster_ids s ! k \<noteq> UNCLASSIFIED \<Longrightarrow>
       dbscan_loop objects dmetric [k] s = Some s \<Longrightarrow> I (Suc k) s"
    and noise: "\<And>k s. I k s \<Longrightarrow> k < n \<Longrightarrow>
       length objects \<le> length (cluster_ids s) \<Longrightarrow> current_cluster_id_m s \<noteq> UNCLASSIFIED \<Longrightarrow>
       cluster_ids s ! k = UNCLASSIFIED \<Longrightarrow>
       \<not> core_point objects dmetric (epsilon_m s) (min_points_m s) k \<Longrightarrow>
       dbscan_loop objects dmetric [k] s = Some (s\<lparr>cluster_ids := (cluster_ids s)[k := NOISE]\<rparr>) \<Longrightarrow>
       I (Suc k) (s\<lparr>cluster_ids := (cluster_ids s)[k := NOISE]\<rparr>)"
    and start: "\<And>k s ids'. I k s \<Longrightarrow> k < n \<Longrightarrow>
       length objects \<le> length (cluster_ids s) \<Longrightarrow> current_cluster_id_m s \<noteq> UNCLASSIFIED \<Longrightarrow>
       cluster_ids s ! k = UNCLASSIFIED \<Longrightarrow>
       core_point objects dmetric (epsilon_m s) (min_points_m s) k \<Longrightarrow>
       expand_cluster objects dmetric k s = Some (True, s\<lparr>cluster_ids := ids'\<rparr>) \<Longrightarrow>
       length ids' = length (cluster_ids s) \<Longrightarrow>
       dbscan_loop objects dmetric [k] s =
         Some (s\<lparr>cluster_ids := ids', medoid_ids := medoid_ids s @ [k],
                 current_cluster_id_m := current_cluster_id_m s + 1,
                 total_clusters_m := total_clusters_m s + 1\<rparr>) \<Longrightarrow>
       I (Suc k) (s\<lparr>cluster_ids := ids', medoid_ids := medoid_ids s @ [k],
                 current_cluster_id_m := current_cluster_id_m s + 1,
                 total_clusters_m := total_clusters_m s + 1\<rparr>)"
  shows "\<exists>st'. dbscan_loop objects dmetric [j..<n] st = Some st' \<and> I n st'"
  using assms(1,3,4,5)
proof (induction "n - j" arbitrary: j st)
  case 0
  then show ?case by simp
next
  case (Suc d)
  then have jn: "j < n" by simp
  then have jo: "j < length objects" using assms(2) by simp
  have jl: "j < length (cluster_ids st)" using jo Suc.prems by simp
  have "\<exists>s1. dbscan_loop objects dmetric [j] st = Some s1 \<and> I (Suc j) s1 \<and>
          length objects \<le> length (cluster_ids s1) \<and> current_cluster_id_m s1 \<noteq> UNCLASSIFIED"
  proof (cases "cluster_ids st ! j = UNCLASSIFIED")
    case False
    then have "dbscan_loop objects dmetric [j] st = Some st" using jl by simp
    then show ?thesis using skip [OF Suc.prems(4) jn Suc.prems(2,3) False] Suc.prems by simp
  next
    case True
    from expand_cluster_summary [OF jo Suc.prems(2,3), of dmetric] obtain ids' where
      e: "expand_cluster objects dmetric j st =
           Some (core_point objects dmetric (epsilon_m st) (min_points_m st) j,
                 st\<lparr>cluster_ids := ids'\<rparr>)"
      and len: "length ids' = length (cluster_ids st)"
      and nc: "\<not> core_point objects dmetric (epsilon_m st) (min_points_m st) j \<Longrightarrow>
                 ids' = (cluster_ids st)[j := NOISE]"
      by (auto split: if_splits)
    show ?thesis
    proof (cases "core_point objects dmetric (epsilon_m st) (min_points_m st) j")
      case False
      have "dbscan_loop objects dmetric [j] st = Some (st\<lparr>cluster_ids := (cluster_ids st)[j := NOISE]\<rparr>)"
        using True jl e nc [OF False] False by simp
      then show ?thesis
        using noise [OF Suc.prems(4) jn Suc.prems(2,3) True False] Suc.prems by simp
    next
      case c: True
      have e': "expand_cluster objects dmetric j st = Some (True, st\<lparr>cluster_ids := ids'\<rparr>)"
        using e c by simp
      have "dbscan_loop objects dmetric [j] st =
         Some (st\<lparr>cluster_ids := ids', medoid_ids := medoid_ids st @ [j],
                 current_cluster_id_m := current_cluster_id_m st + 1,
                 total_clusters_m := total_clusters_m st + 1\<rparr>)"
        using True jl e' by simp
      then show ?thesis
        using start [OF Suc.prems(4) jn Suc.prems(2,3) True c e' len] Suc.prems len
        by (simp add: UNCLASSIFIED_def)
    qed
  qed
  then obtain s1 where s1: "dbscan_loop objects dmetric [j] st = Some s1" "I (Suc j) s1"
    "length objects \<le> length (cluster_ids s1)" "current_cluster_id_m s1 \<noteq> UNCLASSIFIED"
    by blast
  have "d = n - Suc j" using Suc.hyps(2) by simp
  from Suc.hyps(1) [OF this _ s1(3,4,2)] jn obtain st' where
    "dbscan_loop objects dmetric [Suc j..<n] s1 = Some st'" "I n st'"
    by auto
  moreover have "[j..<n] = [j] @ [Suc j..<n]" using jn by (simp add: upt_conv_Cons)
  ultimately show ?case using s1(1) by (simp only: dbscan_loop_append option.case) simp
qed

lemma cluster_ids_update_inject:
  "st\<lparr>cluster_ids := a\<rparr> = st\<lparr>cluster_ids := b\<rparr> \<Longrightarrow> a = b"
  by (drule arg_cong [of _ _ cluster_ids]) simp

lemma expand_cluster_started:
  fixes st :: "('d::ord, 'r) density"
  assumes "i < length objects" and "length objects \<le> length (cluster_ids st)"
    and "current_cluster_id_m st \<noteq> UNCLASSIFIED"
    and "expand_cluster objects dmetric i st = Some (True, st\<lparr>cluster_ids := ids'\<rparr>)"
  shows "length ids' = length (cluster_ids st)"
    and "\<forall>q \<in> set (neighbourhood objects dmetric (epsilon_m st) i). ids' ! q = current_cluster_id_m st"
    and "\<forall>x < length ids'. ids' ! x = cluster_ids st ! x \<or> ids' ! x = current_cluster_id_m st"
    and "\<forall>x < length ids'. x \<notin> set (neighbourhood objects dmetric (epsilon_m st) i) \<longrightarrow>
            FIRST_CLUSTER \<le> cluster_ids st ! x \<longrightarrow> ids' ! x = cluster_ids st ! x"
proof -
  from expand_cluster_summary [OF assms(1-3), of dmetric]
  obtain ids'' where e: "expand_cluster objects dmetric i st =
           Some (core_point objects dmetric (epsilon_m st) (min_points_m st) i,
                 st\<lparr>cluster_ids := ids''\<rparr>)"
    and r: "length ids'' = length (cluster_ids st) \<and>
         (if core_point objects dmetric (epsilon_m st) (min_points_m st) i then
            (\<forall>q \<in> set (neighbourhood objects dmetric (epsilon_m st) i).
                ids'' ! q = current_cluster_id_m st) \<and>
            (\<forall>x < length ids''. ids'' ! x = cluster_ids st ! x \<or> ids'' ! x = current_cluster_id_m st) \<and>
            (\<forall>x < length ids''. x \<notin> set (neighbourhood objects dmetric (epsilon_m st) i) \<longrightarrow>
                FIRST_CLUSTER \<le> cluster_ids st ! x \<longrightarrow> ids'' ! x = cluster_ids st ! x)
          else ids'' = (cluster_ids st)[i := NOISE])"
    by blast
  from e assms(4) have c: "core_point objects dmetric (epsilon_m st) (min_points_m st) i"
    and eq: "st\<lparr>cluster_ids := ids''\<rparr> = st\<lparr>cluster_ids := ids'\<rparr>"
    by simp_all
  from r c have s: "length ids'' = length (cluster_ids st) \<and>
       (\<forall>q \<in> set (neighbourhood objects dmetric (epsilon_m st) i). ids'' ! q = current_cluster_id_m st) \<and>
       (\<forall>x < length ids''. ids'' ! x = cluster_ids st ! x \<or> ids'' ! x = current_cluster_id_m st) \<and>
       (\<forall>x < length ids''. x \<notin> set (neighbourhood objects dmetric (epsilon_m st) i) \<longrightarrow>
            FIRST_CLUSTER \<le> cluster_ids st ! x \<longrightarrow> ids'' ! x = cluster_ids st ! x)"
    by simp
  from eq have "ids'' = ids'" by (rule cluster_ids_update_inject)
  with s show "length ids' = length (cluster_ids st)"
    and "\<forall>q \<in> set (neighbourhood objects dmetric (epsilon_m st) i). ids' ! q = current_cluster_id_m st"
    and "\<forall>x < length ids'. ids' ! x = cluster_ids st ! x \<or> ids' ! x = current_cluster_id_m st"
    and "\<forall>x < length ids'. x \<notin> set (neighbourhood objects dmetric (epsilon_m st) i) \<longrightarrow>
            FIRST_CLUSTER \<le> cluster_ids st ! x \<longrightarrow> ids' ! x = cluster_ids st ! x"
    by simp_all
qed

subsection \<open>Totality\<close>

lemma dbscan_loop_classifies:
  fixes st :: "('d::ord, 'r) density"
  assumes "length (cluster_ids st) = length objects"
    and "current_cluster_id_m st \<noteq> UNCLASSIFIED"
  shows "\<exists>st'. dbscan_loop objects dmetric [0..<length objects] st = Some st' \<and>
           length (cluster_ids st') = length objects \<and>
           (\<forall>i < length objects. cluster_ids st' ! i \<noteq> UNCLASSIFIED)"
proof -
  define I where "I = (\<lambda>k (s :: ('d, 'r) density).
     length (cluster_ids s) = length objects \<and> (\<forall>i < k. cluster_ids s ! i \<noteq> UNCLASSIFIED))"
  have "\<exists>st'. dbscan_loop objects dmetric [0..<length objects] st = Some st' \<and> I (length objects) st'"
  proof (rule dbscan_scan_rule [where I = I])
    show "I 0 st" using assms by (simp add: I_def)
  next
    fix k and s :: "('d, 'r) density"
    assume "I k s" "cluster_ids s ! k \<noteq> UNCLASSIFIED"
    then show "I (Suc k) s" by (auto simp: I_def less_Suc_eq)
  next
    fix k and s :: "('d, 'r) density"
    assume "I k s" "k < length objects"
    then show "I (Suc k) (s\<lparr>cluster_ids := (cluster_ids s)[k := NOISE]\<rparr>)"
      by (auto simp: I_def less_Suc_eq nth_list_update NOISE_def UNCLASSIFIED_def)
  next
    fix k ids' and s :: "('d, 'r) density"
    assume a: "I k s" "k < length objects" "length objects \<le> length (cluster_ids s)"
      "current_cluster_id_m s \<noteq> UNCLASSIFIED"
      "expand_cluster objects dmetric k s = Some (True, s\<lparr>cluster_ids := ids'\<rparr>)"
    note s = expand_cluster_started [OF a(2,3,4,5)]
    have "ids' ! k = current_cluster_id_m s"
      using s(2) a(2) by (simp add: self_in_neighbourhood)
    moreover have "\<forall>i < k. ids' ! i \<noteq> UNCLASSIFIED"
    proof (intro allI impI)
      fix i assume i: "i < k"
      then have "i < length ids'" using s(1) a(2,3) by simp
      with s(3) have "ids' ! i = cluster_ids s ! i \<or> ids' ! i = current_cluster_id_m s" by simp
      then show "ids' ! i \<noteq> UNCLASSIFIED" using a(1,4) i by (auto simp: I_def)
    qed
    ultimately show "I (Suc k) (s\<lparr>cluster_ids := ids', medoid_ids := medoid_ids s @ [k],
                 current_cluster_id_m := current_cluster_id_m s + 1,
                 total_clusters_m := total_clusters_m s + 1\<rparr>)"
      using s(1) a(1,4) by (auto simp: I_def less_Suc_eq)
  qed (use assms in simp_all)
  then show ?thesis by (simp add: I_def)
qed

text \<open>
  C3. On an instance as the constructor leaves it, \<open>dbscan\<close> returns for every object
  sequence, metric, epsilon and \<open>min_points\<close>, and then the assignment array has one
  entry for each object, each of them NOISE or a cluster id from \<open>FIRST_CLUSTER\<close> on.
\<close>

theorem dbscan_total:
  fixes st :: "('d::ord, 'r) density"
  assumes "fresh st"
  shows "\<exists>st'. dbscan objects dmetric epsilon min_points st = Some st' \<and>
           length (cluster_ids st') = length objects \<and>
           (\<forall>i < length objects.
              cluster_ids st' ! i = NOISE \<or> FIRST_CLUSTER \<le> cluster_ids st' ! i)"
proof -
  have "\<exists>st'. dbscan_loop objects dmetric [0..<length objects]
                 (dbscan_start objects epsilon min_points st) = Some st' \<and>
           length (cluster_ids st') = length objects \<and>
           (\<forall>i < length objects. cluster_ids st' ! i \<noteq> UNCLASSIFIED)"
    using assms
    by (intro dbscan_loop_classifies) (simp_all add: fresh_def FIRST_CLUSTER_def UNCLASSIFIED_def)
  then obtain st' where st': "dbscan objects dmetric epsilon min_points st = Some st'"
    "length (cluster_ids st') = length objects"
    "\<forall>i < length objects. cluster_ids st' ! i \<noteq> UNCLASSIFIED"
    unfolding dbscan_def by blast
  have "x = NOISE \<or> FIRST_CLUSTER \<le> x" if "x \<noteq> UNCLASSIFIED" for x
    using that unfolding UNCLASSIFIED_def NOISE_def FIRST_CLUSTER_def by arith
  with st' show ?thesis by blast
qed

theorem dbscan_total_witness:
  "fresh new_density \<and>
   dbscan [0, 5, 5, 5] abs_diff 1 2 new_density =
     Some (new_density\<lparr>cluster_ids := [NOISE, 2, 2, 2], medoid_ids := [1], epsilon_m := 1,
             min_points_m := 2, current_cluster_id_m := 3, total_clusters_m := 1\<rparr>)"
proof -
  have f: "fresh new_density" by (simp add: fresh_def new_density_def)
  have e: "dbscan [0, 5, 5, 5] abs_diff 1 2 new_density =
     Some (new_density\<lparr>cluster_ids := [NOISE, 2, 2, 2], medoid_ids := [1], epsilon_m := 1,
             min_points_m := 2, current_cluster_id_m := 3, total_clusters_m := 1\<rparr>)"
    by code_simp
  from dbscan_total [OF f, of "[0, 5, 5, 5]" abs_diff 1 2] e
  have "length [NOISE, 2, 2, 2] = length [0, 5, 5, 5 :: int]" by auto
  with f e show ?thesis by simp
qed

subsection \<open>A second run on the same instance\<close>

lemma dbscan_loop_members:
  fixes st :: "('d::ord, 'r) density"
  assumes "length objects \<le> length (cluster_ids st)"
    and "current_cluster_id_m st \<noteq> UNCLASSIFIED"
  shows "\<exists>st'. dbscan_loop objects dmetric [0..<length objects] st = Some st' \<and>
           epsilon_m st' = epsilon_m st \<and> min_points_m st' = min_points_m st \<and>
           random_m st' = random_m st"
proof -
  define I where "I = (\<lambda>(k::nat) (s :: ('d, 'r) density).
     epsilon_m s = epsilon_m st \<and> min_points_m s = min_points_m st \<and> random_m s = random_m st)"
  have "\<exists>st'. dbscan_loop objects dmetric [0..<length objects] st = Some st' \<and> I (length objects) st'"
    by (rule dbscan_scan_rule [where I = I]) (use assms in \<open>simp_all add: I_def\<close>)
  then show ?thesis by (simp add: I_def)
qed



subsection \<open>The all-noise boundary\<close>

lemma filter_eq_upt: "i < n \<Longrightarrow> filter (\<lambda>j. j = i) [0..<n] = [i]"
  by (induction n) (auto simp: less_Suc_eq)

lemma neighbourhood_far:
  fixes epsilon :: "'d::preorder"
  assumes "\<forall>j < length objects. i \<noteq> j \<longrightarrow> epsilon \<le> dmetric (objects ! i) (objects ! j)"
    and "i < length objects"
  shows "neighbourhood objects dmetric epsilon i = [i]"
proof -
  have "neighbourhood objects dmetric epsilon i = filter (\<lambda>j. j = i) [0..<length objects]"
    unfolding neighbourhood_def using assms(1)
    by (intro filter_cong) (auto simp: less_le_not_le)
  then show ?thesis using assms(2) by (simp add: filter_eq_upt)
qed

text \<open>
  C8, as the code has it. When the distance between every two objects at different
  indices is at least \<open>epsilon\<close> and \<open>min_points\<close> is at least 2, a run on an instance as
  the constructor leaves it returns with every entry of the assignment array NOISE, an
  empty medoid list and no cluster counted.
\<close>

theorem dbscan_all_noise:
  fixes st :: "('d::preorder, 'r) density"
  assumes "fresh st" and "2 \<le> min_points"
    and "\<forall>i < length objects. \<forall>j < length objects.
           i \<noteq> j \<longrightarrow> epsilon \<le> dmetric (objects ! i) (objects ! j)"
  shows "\<exists>st'. dbscan objects dmetric epsilon min_points st = Some st' \<and>
           cluster_ids st' = replicate (length objects) NOISE \<and>
           medoid_ids st' = [] \<and> total_clusters_m st' = 0"
proof -
  let ?s0 = "dbscan_start objects epsilon min_points st"
  define I where "I = (\<lambda>k (s :: ('d, 'r) density).
     length (cluster_ids s) = length objects \<and>
     (\<forall>i < k. cluster_ids s ! i = NOISE) \<and>
     (\<forall>i < length objects. k \<le> i \<longrightarrow> cluster_ids s ! i = UNCLASSIFIED) \<and>
     epsilon_m s = epsilon \<and> min_points_m s = min_points \<and>
     medoid_ids s = [] \<and> total_clusters_m s = 0)"
  have "\<exists>st'. dbscan_loop objects dmetric [0..<length objects] ?s0 = Some st' \<and> I (length objects) st'"
  proof (rule dbscan_scan_rule [where I = I])
    show "I 0 ?s0" using assms(1) by (simp add: I_def fresh_def)
  next
    fix k and s :: "('d, 'r) density"
    assume "I k s" "k < length objects"
    then show "I (Suc k) (s\<lparr>cluster_ids := (cluster_ids s)[k := NOISE]\<rparr>)"
      by (auto simp: I_def less_Suc_eq nth_list_update)
  next
    fix k and s :: "('d, 'r) density"
    assume "I k s" "k < length objects" "cluster_ids s ! k \<noteq> UNCLASSIFIED"
    then have False by (simp add: I_def)
    then show "I (Suc k) s" ..
  next
    fix k ids' and s :: "('d, 'r) density"
    assume a: "I k s" "k < length objects"
      "core_point objects dmetric (epsilon_m s) (min_points_m s) k"
    have "neighbourhood objects dmetric epsilon k = [k]"
      using assms(3) a(2) by (intro neighbourhood_far) simp_all
    then have False using a(1,3) assms(2) by (simp add: I_def core_point_def)
    then show "I (Suc k) (s\<lparr>cluster_ids := ids', medoid_ids := medoid_ids s @ [k],
                 current_cluster_id_m := current_cluster_id_m s + 1,
                 total_clusters_m := total_clusters_m s + 1\<rparr>)" ..
  qed (use assms in \<open>simp_all add: fresh_def FIRST_CLUSTER_def UNCLASSIFIED_def\<close>)
  then obtain st' where e: "dbscan_loop objects dmetric [0..<length objects] ?s0 = Some st'"
    and i: "I (length objects) st'"
    by blast
  from i have "cluster_ids st' = replicate (length objects) NOISE"
    by (intro nth_equalityI) (simp_all add: I_def)
  with e i show ?thesis by (simp add: dbscan_def I_def)
qed

theorem dbscan_all_noise_witness:
  "fresh new_density \<and> (2::nat) \<le> 2 \<and>
   dbscan [0, 5, 9] abs_diff 1 2 new_density =
     Some (new_density\<lparr>cluster_ids := [NOISE, NOISE, NOISE], epsilon_m := 1, min_points_m := 2\<rparr>)"
proof -
  have f: "fresh new_density" by (simp add: fresh_def new_density_def)
  have far: "\<forall>i < length [0, 5, 9 :: int]. \<forall>j < length [0, 5, 9 :: int].
           i \<noteq> j \<longrightarrow> 1 \<le> abs_diff ([0, 5, 9] ! i) ([0, 5, 9] ! j)"
    by (auto simp: abs_diff_def less_Suc_eq)
  have e: "dbscan [0, 5, 9] abs_diff 1 2 new_density =
     Some (new_density\<lparr>cluster_ids := [NOISE, NOISE, NOISE], epsilon_m := 1, min_points_m := 2\<rparr>)"
    by code_simp
  from dbscan_all_noise [OF f order_refl far] obtain st' where
    "dbscan [0, 5, 9] abs_diff 1 2 new_density = Some st'" "total_clusters_m st' = 0"
    by blast
  with e have "total_clusters_m
      (new_density\<lparr>cluster_ids := [NOISE, NOISE, NOISE], epsilon_m := 1, min_points_m := 2\<rparr>) = 0"
    by simp
  with f e show ?thesis by simp
qed

text \<open>
  C8 as the spec has it allows every positive \<open>min_points\<close>. With \<open>min_points = 1\<close> the
  neighbourhood of every point, which holds the point itself, is large enough, and every
  point starts a cluster of its own: the two objects 0 and 5 with \<open>epsilon = 1\<close> are at
  distance 5 from each other and end in the clusters 2 and 3.
\<close>

theorem dbscan_all_noise_counterexample:
  "(1::int) \<le> abs_diff ([0, 5] ! 0) ([0, 5] ! 1) \<and> (1::int) \<le> abs_diff ([0, 5] ! 1) ([0, 5] ! 0) \<and>
   (0::nat) < 1 \<and> fresh new_density \<and>
   dbscan [0, 5] abs_diff 1 1 new_density =
     Some (new_density\<lparr>cluster_ids := [2, 3], medoid_ids := [0, 1], epsilon_m := 1,
             min_points_m := 1, current_cluster_id_m := 4, total_clusters_m := 2\<rparr>) \<and>
   [2, 3] \<noteq> replicate (length [0, 5 :: int]) NOISE"
proof -
  have "dbscan [0, 5] abs_diff 1 1 new_density =
     Some (new_density\<lparr>cluster_ids := [2, 3], medoid_ids := [0, 1], epsilon_m := 1,
             min_points_m := 1, current_cluster_id_m := 4, total_clusters_m := 2\<rparr>)"
    by code_simp
  moreover have "fresh new_density" by (simp add: fresh_def new_density_def)
  ultimately show ?thesis by (simp add: abs_diff_def NOISE_def)
qed

subsection \<open>Determinism\<close>

lemma epsilon_range_query_random:
  "epsilon_range_query objects dmetric i (st\<lparr>random_m := r\<rparr>) =
     map_option (apsnd (\<lambda>s. s\<lparr>random_m := r\<rparr>)) (epsilon_range_query objects dmetric i st)"
  by (simp add: epsilon_range_query_def split: option.splits)

lemma assign_seeds_random:
  "assign_seeds c seeds (st\<lparr>random_m := r\<rparr>) =
     map_option (apsnd (\<lambda>s. s\<lparr>random_m := r\<rparr>)) (assign_seeds c seeds st)"
proof (induction seeds arbitrary: st)
  case Nil
  then show ?case by simp
next
  case (Cons q seeds)
  have c: "\<And>X. st\<lparr>random_m := r, cluster_ids := X\<rparr> = (st\<lparr>cluster_ids := X\<rparr>)\<lparr>random_m := r\<rparr>"
    by simp
  show ?case
    by (simp only: assign_seeds.simps c Cons.IH) (simp split: option.splits)
qed

lemma absorb_random:
  "absorb qs seed_list (st\<lparr>random_m := r\<rparr>) =
     map_option (apsnd (\<lambda>s. s\<lparr>random_m := r\<rparr>)) (absorb qs seed_list st)"
proof (induction qs arbitrary: seed_list st)
  case Nil
  then show ?case by simp
next
  case (Cons q qs)
  have c: "\<And>X. st\<lparr>random_m := r, cluster_ids := X\<rparr> = (st\<lparr>cluster_ids := X\<rparr>)\<lparr>random_m := r\<rparr>"
    by simp
  show ?case
    by (simp only: absorb.simps c Cons.IH) simp
qed

lemma visit_random:
  "visit objects dmetric p seed_list (st\<lparr>random_m := r\<rparr>) =
     map_option (apsnd (\<lambda>s. s\<lparr>random_m := r\<rparr>)) (visit objects dmetric p seed_list st)"
  by (auto simp: visit_def epsilon_range_query_random absorb_random split: option.splits)

lemma expand_seeds_random:
  fixes st :: "('d::ord, 'r) density"
  assumes "expand_seeds objects dmetric seed_list st = Some st'"
  shows "expand_seeds objects dmetric seed_list (st\<lparr>random_m := r\<rparr>) = Some (st'\<lparr>random_m := r\<rparr>)"
proof (rule expand_seeds.raw_induct [where P = "\<lambda>objects dmetric seed_list st st'.
         expand_seeds objects dmetric seed_list (st\<lparr>random_m := r\<rparr>) = Some (st'\<lparr>random_m := r\<rparr>)",
       OF _ assms])
  fix f :: "'a list \<Rightarrow> ('a \<Rightarrow> 'a \<Rightarrow> 'd) \<Rightarrow> nat list \<Rightarrow> ('d, 'r) density \<Rightarrow> ('d, 'r) density option"
    and objects dmetric seed_list st st'
  assume IH: "\<And>objects dmetric seed_list st st'. f objects dmetric seed_list st = Some st' \<Longrightarrow>
      expand_seeds objects dmetric seed_list (st\<lparr>random_m := r\<rparr>) = Some (st'\<lparr>random_m := r\<rparr>)"
    and eq: "(case seed_list of [] \<Rightarrow> Some st
      | current_neighbour # rest \<Rightarrow>
          (case visit objects dmetric current_neighbour rest st of
             None \<Rightarrow> None
           | Some (seed_list', st') \<Rightarrow> f objects dmetric seed_list' st')) = Some st'"
  show "expand_seeds objects dmetric seed_list (st\<lparr>random_m := r\<rparr>) = Some (st'\<lparr>random_m := r\<rparr>)"
  proof (cases seed_list)
    case Nil
    then show ?thesis using eq by (simp add: expand_seeds.simps)
  next
    case (Cons p rest)
    with eq obtain sl s where v: "visit objects dmetric p rest st = Some (sl, s)"
      and f: "f objects dmetric sl s = Some st'"
      by (auto split: option.splits)
    from IH [OF f] v Cons show ?thesis
      by (subst expand_seeds.simps) (simp add: visit_random)
  qed
qed

lemma expand_cluster_random:
  "expand_cluster objects dmetric i st = Some (b, st') \<Longrightarrow>
   expand_cluster objects dmetric i (st\<lparr>random_m := r\<rparr>) = Some (b, st'\<lparr>random_m := r\<rparr>)"
  unfolding expand_cluster_def
  by (auto simp: epsilon_range_query_random assign_seeds_random expand_seeds_random
      split: option.splits if_splits)

lemma dbscan_loop_random:
  "dbscan_loop objects dmetric todo st = Some st' \<Longrightarrow>
   dbscan_loop objects dmetric todo (st\<lparr>random_m := r\<rparr>) = Some (st'\<lparr>random_m := r\<rparr>)"
proof (induction todo arbitrary: st)
  case Nil
  then show ?case by simp
next
  case (Cons i todo)
  show ?case
  proof (cases "cluster_ids st ! i = UNCLASSIFIED")
    case False
    then show ?thesis using Cons by (auto split: if_splits)
  next
    case True
    with Cons.prems obtain b s where e: "expand_cluster objects dmetric i st = Some (b, s)"
      and i: "i < length (cluster_ids st)"
      by (auto split: if_splits option.splits)
    note e' = expand_cluster_random [OF e, of r]
    show ?thesis
    proof (cases b)
      case True
      with Cons.prems e i \<open>cluster_ids st ! i = UNCLASSIFIED\<close>
      have "dbscan_loop objects dmetric todo
               (s\<lparr>medoid_ids := medoid_ids s @ [i],
                  current_cluster_id_m := current_cluster_id_m s + 1,
                  total_clusters_m := total_clusters_m s + 1\<rparr>) = Some st'"
        by simp
      note run = this
      have c: "(s\<lparr>random_m := r\<rparr>)\<lparr>medoid_ids := medoid_ids s @ [i],
                  current_cluster_id_m := current_cluster_id_m s + 1,
                  total_clusters_m := total_clusters_m s + 1\<rparr> =
               (s\<lparr>medoid_ids := medoid_ids s @ [i],
                  current_cluster_id_m := current_cluster_id_m s + 1,
                  total_clusters_m := total_clusters_m s + 1\<rparr>)\<lparr>random_m := r\<rparr>"
        by simp
      from Cons.IH [OF run]
      have "dbscan_loop objects dmetric todo
               ((s\<lparr>random_m := r\<rparr>)\<lparr>medoid_ids := medoid_ids s @ [i],
                  current_cluster_id_m := current_cluster_id_m s + 1,
                  total_clusters_m := total_clusters_m s + 1\<rparr>) = Some (st'\<lparr>random_m := r\<rparr>)"
        by (simp only: c)
      then show ?thesis
        using True e' i \<open>cluster_ids st ! i = UNCLASSIFIED\<close> by simp
    next
      case False
      with Cons.prems e i \<open>cluster_ids st ! i = UNCLASSIFIED\<close>
      have "dbscan_loop objects dmetric todo s = Some st'" by simp
      from Cons.IH [OF this] show ?thesis
        using False e' i \<open>cluster_ids st ! i = UNCLASSIFIED\<close> by simp
    qed
  qed
qed

text \<open>
  C9. Two instances as the constructor leaves them may differ in the state of the
  random-number generator and in the two parameters that \<open>dbscan\<close> sets before it reads
  them. Runs of \<open>dbscan\<close> on two such instances with the same objects, metric, epsilon
  and \<open>min_points\<close> both return, with the same assignment array, the same medoid list and
  the same counters, and each run leaves the random-number member as it found it.
\<close>

theorem dbscan_deterministic:
  fixes st1 st2 :: "('d::ord, 'r) density"
  assumes "fresh st1" and "fresh st2"
  shows "\<exists>r1 r2. dbscan objects dmetric epsilon min_points st1 = Some r1 \<and>
           dbscan objects dmetric epsilon min_points st2 = Some r2 \<and>
           cluster_ids r1 = cluster_ids r2 \<and> medoid_ids r1 = medoid_ids r2 \<and>
           total_clusters_m r1 = total_clusters_m r2 \<and>
           current_cluster_id_m r1 = current_cluster_id_m r2 \<and>
           random_m r1 = random_m st1 \<and> random_m r2 = random_m st2"
proof -
  let ?s1 = "dbscan_start objects epsilon min_points st1"
  let ?s2 = "dbscan_start objects epsilon min_points st2"
  have "\<exists>r1. dbscan_loop objects dmetric [0..<length objects] ?s1 = Some r1 \<and>
           epsilon_m r1 = epsilon_m ?s1 \<and> min_points_m r1 = min_points_m ?s1 \<and>
           random_m r1 = random_m ?s1"
    using assms(1)
    by (intro dbscan_loop_members) (simp_all add: fresh_def FIRST_CLUSTER_def UNCLASSIFIED_def)
  then obtain r1 where r1: "dbscan_loop objects dmetric [0..<length objects] ?s1 = Some r1"
    and rand: "random_m r1 = random_m st1"
    by auto
  have "?s2 = ?s1\<lparr>random_m := random_m st2\<rparr>"
    using assms by (intro density.equality) (simp_all add: fresh_def)
  with dbscan_loop_random [OF r1, of "random_m st2"]
  have "dbscan_loop objects dmetric [0..<length objects] ?s2 = Some (r1\<lparr>random_m := random_m st2\<rparr>)"
    by simp
  with r1 rand show ?thesis by (simp add: dbscan_def)
qed

theorem dbscan_deterministic_witness:
  "fresh new_density \<and> fresh (new_density\<lparr>random_m := 8, epsilon_m := 3, min_points_m := 9\<rparr>) \<and>
   dbscan [0, 5, 5, 5] abs_diff 1 2 new_density =
     Some (new_density\<lparr>cluster_ids := [NOISE, 2, 2, 2], medoid_ids := [1], epsilon_m := 1,
             min_points_m := 2, current_cluster_id_m := 3, total_clusters_m := 1\<rparr>) \<and>
   dbscan [0, 5, 5, 5] abs_diff 1 2 (new_density\<lparr>random_m := 8, epsilon_m := 3, min_points_m := 9\<rparr>) =
     Some (new_density\<lparr>cluster_ids := [NOISE, 2, 2, 2], medoid_ids := [1], random_m := 8,
             epsilon_m := 1, min_points_m := 2, current_cluster_id_m := 3, total_clusters_m := 1\<rparr>)"
proof -
  have f: "fresh new_density"
    "fresh (new_density\<lparr>random_m := 8, epsilon_m := 3, min_points_m := 9\<rparr>)"
    by (simp_all add: fresh_def new_density_def)
  have e: "dbscan [0, 5, 5, 5] abs_diff 1 2 new_density =
     Some (new_density\<lparr>cluster_ids := [NOISE, 2, 2, 2], medoid_ids := [1], epsilon_m := 1,
             min_points_m := 2, current_cluster_id_m := 3, total_clusters_m := 1\<rparr>)"
    by code_simp
  from dbscan_deterministic [OF f, of "[0, 5, 5, 5]" abs_diff 1 2] obtain r2 where
    r2: "dbscan [0, 5, 5, 5] abs_diff 1 2
           (new_density\<lparr>random_m := 8, epsilon_m := 3, min_points_m := 9\<rparr>) = Some r2"
    and "cluster_ids r2 = [NOISE, 2, 2, 2]" "random_m r2 = 8"
    unfolding e by auto
  have "dbscan [0, 5, 5, 5] abs_diff 1 2 (new_density\<lparr>random_m := 8, epsilon_m := 3, min_points_m := 9\<rparr>) =
     Some (new_density\<lparr>cluster_ids := [NOISE, 2, 2, 2], medoid_ids := [1], random_m := 8,
             epsilon_m := 1, min_points_m := 2, current_cluster_id_m := 3, total_clusters_m := 1\<rparr>)"
    by code_simp
  with f e r2 show ?thesis by simp
qed

subsection \<open>The numbering of the clusters\<close>




subsection \<open>How a label changes during a run\<close>

lemma label_cases: "l = UNCLASSIFIED \<or> l = NOISE \<or> FIRST_CLUSTER \<le> l"
  unfolding UNCLASSIFIED_def NOISE_def FIRST_CLUSTER_def by arith

lemma cluster_label: "FIRST_CLUSTER \<le> l \<Longrightarrow> l \<noteq> UNCLASSIFIED \<and> l \<noteq> NOISE"
  unfolding UNCLASSIFIED_def NOISE_def FIRST_CLUSTER_def by arith








subsection \<open>Density containment\<close>

lemma neighbourhood_sym:
  assumes "\<forall>i < length objects. \<forall>j < length objects.
             dmetric (objects ! i) (objects ! j) = dmetric (objects ! j) (objects ! i)"
    and "x < length objects" and "y < length objects"
  shows "y \<in> set (neighbourhood objects dmetric eps x) \<longleftrightarrow>
         x \<in> set (neighbourhood objects dmetric eps y)"
  using assms by (auto simp: set_neighbourhood)

lemma closed_core_keep:
  assumes "closed_core objects dmetric eps min_points ids x"
    and "x < length objects"
    and "ids' ! x = ids ! x"
    and "\<And>y. y < length objects \<Longrightarrow> FIRST_CLUSTER \<le> ids ! y \<Longrightarrow> ids' ! y = ids ! y"
  shows "closed_core objects dmetric eps min_points ids' x"
  unfolding closed_core_def
proof (intro ballI)
  fix y assume y: "y \<in> set (neighbourhood objects dmetric eps x)"
  then have yn: "y < length objects" by (rule neighbourhood_bound)
  from assms(1) y have c: "FIRST_CLUSTER \<le> ids ! y"
    "core_point objects dmetric eps min_points y \<longrightarrow> ids ! y = ids ! x"
    by (auto simp: closed_core_def)
  from assms(4) [OF yn c(1)] c assms(3)
  show "FIRST_CLUSTER \<le> ids' ! y \<and>
        (core_point objects dmetric eps min_points y \<longrightarrow> ids' ! y = ids' ! x)"
    by simp
qed

lemma expansion_inv_border:
  assumes "expansion_inv objects dmetric eps min_points c (p # rest) ids"
    and "\<not> core_point objects dmetric eps min_points p"
  shows "expansion_inv objects dmetric eps min_points c rest ids"
  using assms unfolding expansion_inv_def by auto

lemma expansion_inv_core:
  assumes inv: "expansion_inv objects dmetric eps min_points c (p # rest) ids"
    and sym: "\<forall>i < length objects. \<forall>j < length objects.
             dmetric (objects ! i) (objects ! j) = dmetric (objects ! j) (objects ! i)"
    and c: "FIRST_CLUSTER \<le> c"
    and p: "p < length objects"
    and core: "core_point objects dmetric eps min_points p"
  shows "expansion_inv objects dmetric eps min_points c
           (rest @ filter (\<lambda>q. ids ! q = UNCLASSIFIED) (neighbourhood objects dmetric eps p))
           (paint (filter (\<lambda>q. ids ! q = UNCLASSIFIED \<or> ids ! q = NOISE)
                     (neighbourhood objects dmetric eps p)) c ids)"
proof -
  let ?N = "neighbourhood objects dmetric eps p"
  let ?new = "filter (\<lambda>q. ids ! q = UNCLASSIFIED) ?N"
  let ?ids = "paint (filter (\<lambda>q. ids ! q = UNCLASSIFIED \<or> ids ! q = NOISE) ?N) c ids"
  from inv have len: "length ids = length objects"
    and nonoise: "\<And>x. x < length objects \<Longrightarrow> core_point objects dmetric eps min_points x \<Longrightarrow>
                    ids ! x \<noteq> NOISE"
    and wl: "\<And>w. w \<in> set (p # rest) \<Longrightarrow> ids ! w = c"
    and wr: "\<And>w. w \<in> set (p # rest) \<Longrightarrow> w < length objects"
    and cl: "\<And>x. x < length objects \<Longrightarrow> core_point objects dmetric eps min_points x \<Longrightarrow>
                FIRST_CLUSTER \<le> ids ! x \<Longrightarrow>
                x \<in> set (p # rest) \<or> closed_core objects dmetric eps min_points ids x"
    unfolding expansion_inv_def by blast+
  have nth: "?ids ! x = (if x \<in> set ?N \<and> (ids ! x = UNCLASSIFIED \<or> ids ! x = NOISE) then c else ids ! x)"
    if "x < length objects" for x
    using that len by (simp add: nth_paint)
  have keep: "?ids ! x = ids ! x" if "x < length objects" "FIRST_CLUSTER \<le> ids ! x" for x
    using nth [OF that(1)] cluster_label [OF that(2)] by simp
  have pc: "ids ! p = c" using wl by simp
  have pk: "?ids ! p = c" using keep [OF p] pc c by simp
  have g1: "length ?ids = length objects" using len by simp
  have g2: "\<forall>x < length objects. core_point objects dmetric eps min_points x \<longrightarrow> ?ids ! x \<noteq> NOISE"
  proof (intro allI impI)
    fix x assume x: "x < length objects" "core_point objects dmetric eps min_points x"
    show "?ids ! x \<noteq> NOISE"
      using nth [OF x(1)] nonoise [OF x] cluster_label [OF c] by (simp split: if_splits)
  qed
  have g3: "\<forall>w \<in> set (rest @ ?new). w < length objects \<and> ?ids ! w = c"
  proof (intro ballI)
    fix w assume "w \<in> set (rest @ ?new)"
    then consider "w \<in> set rest" | "w \<in> set ?N" "ids ! w = UNCLASSIFIED" by auto
    then show "w < length objects \<and> ?ids ! w = c"
    proof cases
      case 1
      then have "ids ! w = c" "w < length objects" using wl wr by simp_all
      with keep [of w] c show ?thesis by simp
    next
      case 2
      then have "w < length objects" by (auto dest: neighbourhood_bound)
      with nth [OF this] 2 show ?thesis by simp
    qed
  qed
  have g4: "\<forall>x < length objects. core_point objects dmetric eps min_points x \<longrightarrow>
        FIRST_CLUSTER \<le> ?ids ! x \<longrightarrow>
        x \<in> set (rest @ ?new) \<or> closed_core objects dmetric eps min_points ?ids x"
  proof (intro allI impI)
    fix x assume x: "x < length objects" "core_point objects dmetric eps min_points x"
      "FIRST_CLUSTER \<le> ?ids ! x"
    show "x \<in> set (rest @ ?new) \<or> closed_core objects dmetric eps min_points ?ids x"
    proof (cases "x \<in> set ?N \<and> (ids ! x = UNCLASSIFIED \<or> ids ! x = NOISE)")
      case True
      with nonoise [OF x(1,2)] have "x \<in> set ?new" by simp
      then show ?thesis by simp
    next
      case False
      then have same: "?ids ! x = ids ! x" using nth [OF x(1)] by auto
      with x(3) have lab: "FIRST_CLUSTER \<le> ids ! x" by simp
      from cl [OF x(1,2) lab] consider "x \<in> set rest" | "x = p" "x \<notin> set rest"
        | "closed_core objects dmetric eps min_points ids x"
        by auto
      then show ?thesis
      proof cases
        case 1
        then show ?thesis by simp
      next
        case 3
        from closed_core_keep [OF 3 x(1) same keep] show ?thesis by simp
      next
        case 2
        have "closed_core objects dmetric eps min_points ?ids p"
          unfolding closed_core_def
        proof (intro ballI)
          fix y assume y: "y \<in> set ?N"
          then have yn: "y < length objects" by (rule neighbourhood_bound)
          show "FIRST_CLUSTER \<le> ?ids ! y \<and>
                (core_point objects dmetric eps min_points y \<longrightarrow> ?ids ! y = ?ids ! p)"
          proof (cases "ids ! y = UNCLASSIFIED \<or> ids ! y = NOISE")
            case True
            then have "?ids ! y = c" using nth [OF yn] y by simp
            then show ?thesis using c pk by simp
          next
            case False
            then have ylab: "FIRST_CLUSTER \<le> ids ! y" using label_cases [of "ids ! y"] by simp
            have ysame: "?ids ! y = ids ! y" by (rule keep [OF yn ylab])
            have "ids ! y = c" if yc: "core_point objects dmetric eps min_points y"
            proof -
              from cl [OF yn yc ylab] show ?thesis
              proof
                assume "y \<in> set (p # rest)"
                then show ?thesis by (rule wl)
              next
                assume cy: "closed_core objects dmetric eps min_points ids y"
                have "p \<in> set (neighbourhood objects dmetric eps y)"
                  using neighbourhood_sym [OF sym p yn, of eps] y by simp
                with cy core have "ids ! p = ids ! y" by (auto simp: closed_core_def)
                with pc show ?thesis by simp
              qed
            qed
            then show ?thesis using ylab ysame pk by simp
          qed
        qed
        with 2 show ?thesis by simp
      qed
    qed
  qed
  from g1 g2 g3 g4 show ?thesis
    unfolding expansion_inv_def by (intro conjI)
qed

lemma expansion_inv_Nil:
  "expansion_inv objects dmetric eps min_points c [] ids \<Longrightarrow>
   expansion_inv objects dmetric eps min_points c' [] ids"
  by (simp add: expansion_inv_def)

lemma expansion_inv_noise:
  assumes inv: "expansion_inv objects dmetric eps min_points c [] ids"
    and k: "k < length objects" "ids ! k = UNCLASSIFIED"
      "\<not> core_point objects dmetric eps min_points k"
  shows "expansion_inv objects dmetric eps min_points c [] (ids[k := NOISE])"
proof -
  from inv have len: "length ids = length objects"
    and nonoise: "\<And>x. x < length objects \<Longrightarrow> core_point objects dmetric eps min_points x \<Longrightarrow>
                    ids ! x \<noteq> NOISE"
    and cl: "\<And>x. x < length objects \<Longrightarrow> core_point objects dmetric eps min_points x \<Longrightarrow>
                FIRST_CLUSTER \<le> ids ! x \<Longrightarrow> closed_core objects dmetric eps min_points ids x"
    unfolding expansion_inv_def by simp_all
  have keep: "ids[k := NOISE] ! y = ids ! y" if "y < length objects" "FIRST_CLUSTER \<le> ids ! y" for y
    using that k(2) cluster_label [OF that(2)] by (cases "y = k") simp_all
  have g2: "\<forall>x < length objects. core_point objects dmetric eps min_points x \<longrightarrow>
              ids[k := NOISE] ! x \<noteq> NOISE"
  proof (intro allI impI)
    fix x assume x: "x < length objects" "core_point objects dmetric eps min_points x"
    then have "x \<noteq> k" using k(3) by auto
    with nonoise [OF x] show "ids[k := NOISE] ! x \<noteq> NOISE" by simp
  qed
  have g4: "\<forall>x < length objects. core_point objects dmetric eps min_points x \<longrightarrow>
        FIRST_CLUSTER \<le> ids[k := NOISE] ! x \<longrightarrow>
        x \<in> set [] \<or> closed_core objects dmetric eps min_points (ids[k := NOISE]) x"
  proof (intro allI impI)
    fix x assume x: "x < length objects" "core_point objects dmetric eps min_points x"
      "FIRST_CLUSTER \<le> ids[k := NOISE] ! x"
    have xk: "x \<noteq> k" using x(2) k(3) by auto
    then have same: "ids[k := NOISE] ! x = ids ! x" by simp
    with x(3) have "FIRST_CLUSTER \<le> ids ! x" by simp
    from closed_core_keep [OF cl [OF x(1,2) this] x(1) same keep]
    show "x \<in> set [] \<or> closed_core objects dmetric eps min_points (ids[k := NOISE]) x"
      by simp
  qed
  from len g2 g4 show ?thesis
    unfolding expansion_inv_def by simp
qed

lemma expansion_inv_seed:
  assumes inv: "expansion_inv objects dmetric eps min_points c' [] ids"
    and sym: "\<forall>i < length objects. \<forall>j < length objects.
             dmetric (objects ! i) (objects ! j) = dmetric (objects ! j) (objects ! i)"
    and c: "FIRST_CLUSTER \<le> c"
    and k: "k < length objects" "ids ! k = UNCLASSIFIED"
  shows "expansion_inv objects dmetric eps min_points c
           (filter (\<lambda>s. s \<noteq> k) (neighbourhood objects dmetric eps k))
           (paint (neighbourhood objects dmetric eps k) c ids)"
proof -
  let ?N = "neighbourhood objects dmetric eps k"
  let ?ids = "paint ?N c ids"
  from inv have len: "length ids = length objects"
    and nonoise: "\<And>x. x < length objects \<Longrightarrow> core_point objects dmetric eps min_points x \<Longrightarrow>
                    ids ! x \<noteq> NOISE"
    and cl: "\<And>x. x < length objects \<Longrightarrow> core_point objects dmetric eps min_points x \<Longrightarrow>
                FIRST_CLUSTER \<le> ids ! x \<Longrightarrow> closed_core objects dmetric eps min_points ids x"
    unfolding expansion_inv_def by simp_all
  have nth: "?ids ! x = (if x \<in> set ?N then c else ids ! x)" if "x < length objects" for x
    using that len by (simp add: nth_paint)
  have away: "x \<notin> set ?N"
    if x: "x < length objects" "core_point objects dmetric eps min_points x" "FIRST_CLUSTER \<le> ids ! x"
    for x
  proof
    assume "x \<in> set ?N"
    then have "k \<in> set (neighbourhood objects dmetric eps x)"
      using neighbourhood_sym [OF sym k(1) x(1), of eps] by simp
    with cl [OF x] have "FIRST_CLUSTER \<le> ids ! k" by (simp add: closed_core_def)
    with k(2) cluster_label show False by blast
  qed
  have g1: "length ?ids = length objects" using len by simp
  have g2: "\<forall>x < length objects. core_point objects dmetric eps min_points x \<longrightarrow> ?ids ! x \<noteq> NOISE"
    using nth nonoise cluster_label [OF c] by simp
  have g3: "\<forall>w \<in> set (filter (\<lambda>s. s \<noteq> k) ?N). w < length objects \<and> ?ids ! w = c"
  proof (intro ballI)
    fix w assume "w \<in> set (filter (\<lambda>s. s \<noteq> k) ?N)"
    then have w: "w \<in> set ?N" by simp
    then have "w < length objects" by (rule neighbourhood_bound)
    with nth [OF this] w show "w < length objects \<and> ?ids ! w = c" by simp
  qed
  have g4: "\<forall>x < length objects. core_point objects dmetric eps min_points x \<longrightarrow>
        FIRST_CLUSTER \<le> ?ids ! x \<longrightarrow>
        x \<in> set (filter (\<lambda>s. s \<noteq> k) ?N) \<or> closed_core objects dmetric eps min_points ?ids x"
  proof (intro allI impI)
    fix x assume x: "x < length objects" "core_point objects dmetric eps min_points x"
      "FIRST_CLUSTER \<le> ?ids ! x"
    show "x \<in> set (filter (\<lambda>s. s \<noteq> k) ?N) \<or> closed_core objects dmetric eps min_points ?ids x"
    proof (cases "x \<in> set ?N")
      case True
      show ?thesis
      proof (cases "x = k")
        case False
        with True show ?thesis by simp
      next
        case xk: True
        have "closed_core objects dmetric eps min_points ?ids k"
          unfolding closed_core_def
        proof (intro ballI)
          fix y assume y: "y \<in> set ?N"
          then have "y < length objects" by (rule neighbourhood_bound)
          from nth [OF this] nth [OF k(1)] y True xk c
          show "FIRST_CLUSTER \<le> ?ids ! y \<and>
                (core_point objects dmetric eps min_points y \<longrightarrow> ?ids ! y = ?ids ! k)"
            by simp
        qed
        with xk show ?thesis by simp
      qed
    next
      case False
      then have same: "?ids ! x = ids ! x" using nth [OF x(1)] by simp
      with x(3) have lab: "FIRST_CLUSTER \<le> ids ! x" by simp
      note cx = cl [OF x(1,2) lab]
      have "closed_core objects dmetric eps min_points ?ids x"
        unfolding closed_core_def
      proof (intro ballI)
        fix y assume y: "y \<in> set (neighbourhood objects dmetric eps x)"
        then have yn: "y < length objects" by (rule neighbourhood_bound)
        from cx y have yl: "FIRST_CLUSTER \<le> ids ! y"
          and yc: "core_point objects dmetric eps min_points y \<longrightarrow> ids ! y = ids ! x"
          by (simp_all add: closed_core_def)
        show "FIRST_CLUSTER \<le> ?ids ! y \<and>
              (core_point objects dmetric eps min_points y \<longrightarrow> ?ids ! y = ?ids ! x)"
        proof (cases "core_point objects dmetric eps min_points y")
          case True
          from away [OF yn True yl] have "?ids ! y = ids ! y" using nth [OF yn] by simp
          with yl yc True same show ?thesis by simp
        next
          case False
          then show ?thesis using nth [OF yn] yl c by simp
        qed
      qed
      then show ?thesis by simp
    qed
  qed
  from g1 g2 g3 g4 show ?thesis
    unfolding expansion_inv_def by (intro conjI)
qed

lemma supported_noise:
  assumes sup: "supported objects dmetric eps min_points ids"
    and k: "ids ! k = UNCLASSIFIED"
  shows "supported objects dmetric eps min_points (ids[k := NOISE])"
  unfolding supported_def
proof (intro allI impI)
  fix x assume x: "x < length objects" "FIRST_CLUSTER \<le> ids[k := NOISE] ! x"
  have keep: "ids[k := NOISE] ! y = ids ! y" if "FIRST_CLUSTER \<le> ids ! y" for y
    using that k cluster_label [OF that] by (cases "y = k") simp_all
  have xk: "ids[k := NOISE] ! x = ids ! x"
  proof (cases "x = k")
    case True
    show ?thesis
    proof (cases "k < length ids")
      case True
      with \<open>x = k\<close> x(2) cluster_label [of NOISE] show ?thesis by simp
    next
      case False
      then show ?thesis by (simp add: not_less list_update_beyond)
    qed
  next
    case False
    then show ?thesis by simp
  qed
  with x(2) have lab: "FIRST_CLUSTER \<le> ids ! x" by simp
  with sup x(1) obtain p where p: "p < length objects"
    "core_point objects dmetric eps min_points p"
    "x \<in> set (neighbourhood objects dmetric eps p)" "ids ! p = ids ! x"
    unfolding supported_def by blast
  from p(4) lab have "ids[k := NOISE] ! p = ids ! p" by (intro keep) simp
  with p xk show "\<exists>p < length objects. core_point objects dmetric eps min_points p \<and>
           x \<in> set (neighbourhood objects dmetric eps p) \<and> ids[k := NOISE] ! p = ids[k := NOISE] ! x"
    by auto
qed

lemma supported_paint:
  assumes sup: "supported objects dmetric eps min_points ids"
    and len: "length ids = length objects"
    and c: "FIRST_CLUSTER \<le> c"
    and p: "p < length objects" "core_point objects dmetric eps min_points p"
    and sub: "set xs \<subseteq> set (neighbourhood objects dmetric eps p)"
    and pc: "paint xs c ids ! p = c"
    and cores: "\<And>y. y < length objects \<Longrightarrow> core_point objects dmetric eps min_points y \<Longrightarrow>
        FIRST_CLUSTER \<le> ids ! y \<Longrightarrow> paint xs c ids ! y = ids ! y"
  shows "supported objects dmetric eps min_points (paint xs c ids)"
  unfolding supported_def
proof (intro allI impI)
  fix x assume x: "x < length objects" "FIRST_CLUSTER \<le> paint xs c ids ! x"
  have nth: "paint xs c ids ! x = (if x \<in> set xs then c else ids ! x)"
    using x(1) len by (simp add: nth_paint)
  show "\<exists>q < length objects. core_point objects dmetric eps min_points q \<and>
           x \<in> set (neighbourhood objects dmetric eps q) \<and> paint xs c ids ! q = paint xs c ids ! x"
  proof (cases "x \<in> set xs")
    case True
    then have "x \<in> set (neighbourhood objects dmetric eps p)" using sub by auto
    with p pc nth True show ?thesis by auto
  next
    case False
    with nth x(2) have lab: "FIRST_CLUSTER \<le> ids ! x" and same: "paint xs c ids ! x = ids ! x"
      by simp_all
    with sup x(1) obtain q where q: "q < length objects"
      "core_point objects dmetric eps min_points q"
      "x \<in> set (neighbourhood objects dmetric eps q)" "ids ! q = ids ! x"
      unfolding supported_def by blast
    from cores [OF q(1,2)] q(4) lab have "paint xs c ids ! q = ids ! q" by simp
    with q same show ?thesis by auto
  qed
qed

lemma labelled_core_away:
  assumes inv: "expansion_inv objects dmetric eps min_points c' [] ids"
    and sym: "\<forall>i < length objects. \<forall>j < length objects.
             dmetric (objects ! i) (objects ! j) = dmetric (objects ! j) (objects ! i)"
    and k: "k < length objects" "ids ! k = UNCLASSIFIED"
    and x: "x < length objects" "core_point objects dmetric eps min_points x"
      "FIRST_CLUSTER \<le> ids ! x"
  shows "x \<notin> set (neighbourhood objects dmetric eps k)"
proof
  assume "x \<in> set (neighbourhood objects dmetric eps k)"
  then have "k \<in> set (neighbourhood objects dmetric eps x)"
    using neighbourhood_sym [OF sym k(1) x(1), of eps] by simp
  moreover from inv x have "closed_core objects dmetric eps min_points ids x"
    by (simp add: expansion_inv_def)
  ultimately have "FIRST_CLUSTER \<le> ids ! k" by (simp add: closed_core_def)
  with k(2) cluster_label show False by blast
qed

lemma expand_cluster_contained:
  fixes s :: "('d::ord, 'r) density"
  assumes inv: "expansion_inv objects dmetric (epsilon_m s) (min_points_m s) c' [] (cluster_ids s)"
    and sup: "supported objects dmetric (epsilon_m s) (min_points_m s) (cluster_ids s)"
    and sym: "\<forall>i < length objects. \<forall>j < length objects.
             dmetric (objects ! i) (objects ! j) = dmetric (objects ! j) (objects ! i)"
    and c: "FIRST_CLUSTER \<le> current_cluster_id_m s"
    and k: "k < length objects" "cluster_ids s ! k = UNCLASSIFIED"
    and e: "expand_cluster objects dmetric k s = Some (True, s\<lparr>cluster_ids := ids'\<rparr>)"
  shows "expansion_inv objects dmetric (epsilon_m s) (min_points_m s) c' [] ids' \<and>
         supported objects dmetric (epsilon_m s) (min_points_m s) ids'"
proof -
  let ?N = "neighbourhood objects dmetric (epsilon_m s) k"
  let ?W = "filter (\<lambda>s. s \<noteq> k) ?N"
  let ?c = "current_cluster_id_m s"
  let ?s1 = "s\<lparr>cluster_ids := paint ?N ?c (cluster_ids s)\<rparr>"
  let ?J = "\<lambda>W ids. expansion_inv objects dmetric (epsilon_m s) (min_points_m s) ?c W ids \<and>
                    supported objects dmetric (epsilon_m s) (min_points_m s) ids"
  from inv have len: "length (cluster_ids s) = length objects"
    by (simp add: expansion_inv_def)
  have cu: "?c \<noteq> UNCLASSIFIED"
    using cluster_label [OF c] by simp
  have eq: "expand_cluster objects dmetric k s =
     (if core_point objects dmetric (epsilon_m s) (min_points_m s) k then
        (case expand_seeds objects dmetric ?W ?s1 of None \<Rightarrow> None | Some st3 \<Rightarrow> Some (True, st3))
      else Some (False, s\<lparr>cluster_ids := (cluster_ids s)[k := NOISE]\<rparr>))"
    using k(1) len by (intro expand_cluster_in_range) simp_all
  with e have core: "core_point objects dmetric (epsilon_m s) (min_points_m s) k"
    by (simp split: if_splits)
  have "\<exists>ids''. expand_seeds objects dmetric ?W ?s1 = Some (?s1\<lparr>cluster_ids := ids''\<rparr>) \<and>
           length ids'' = length (cluster_ids ?s1) \<and> ?J [] ids''"
  proof (rule expand_seeds_invariant [where J = ?J])
    show "\<forall>p \<in> set ?W. p < length objects" by (auto dest: neighbourhood_bound)
    show "length objects \<le> length (cluster_ids ?s1)" using len by simp
    show "current_cluster_id_m ?s1 \<noteq> UNCLASSIFIED" using cu by simp
    have "supported objects dmetric (epsilon_m s) (min_points_m s) (paint ?N ?c (cluster_ids s))"
    proof (rule supported_paint [OF sup len c k(1) core])
      show "set ?N \<subseteq> set ?N" by simp
      show "paint ?N ?c (cluster_ids s) ! k = ?c"
        using k(1) len by (simp add: nth_paint self_in_neighbourhood)
    next
      fix y assume y: "y < length objects"
        "core_point objects dmetric (epsilon_m s) (min_points_m s) y"
        "FIRST_CLUSTER \<le> cluster_ids s ! y"
      from labelled_core_away [OF inv sym k y] y(1) len
      show "paint ?N ?c (cluster_ids s) ! y = cluster_ids s ! y"
        by (simp add: nth_paint)
    qed
    with expansion_inv_seed [OF inv sym c k]
    show "?J ?W (cluster_ids ?s1)" by simp
  next
    fix p rest ids
    let ?A = "filter (\<lambda>q. ids ! q = UNCLASSIFIED \<or> ids ! q = NOISE)
                (neighbourhood objects dmetric (epsilon_m s) p)"
    assume a: "?J (p # rest) ids" "p < length objects" "length ids = length (cluster_ids ?s1)"
      "core_point objects dmetric (epsilon_m ?s1) (min_points_m ?s1) p"
    from a(4) have co: "core_point objects dmetric (epsilon_m s) (min_points_m s) p" by simp
    from a(1) have i: "expansion_inv objects dmetric (epsilon_m s) (min_points_m s) ?c (p # rest) ids"
      and su: "supported objects dmetric (epsilon_m s) (min_points_m s) ids"
      by simp_all
    from a(3) len have l: "length ids = length objects" by simp
    from i have pc: "ids ! p = ?c" by (simp add: expansion_inv_def)
    have keep: "paint ?A ?c ids ! y = ids ! y" if "y < length objects" "FIRST_CLUSTER \<le> ids ! y" for y
      using that l cluster_label [OF that(2)] by (simp add: nth_paint)
    have "supported objects dmetric (epsilon_m s) (min_points_m s) (paint ?A ?c ids)"
    proof (rule supported_paint [OF su l c a(2) co])
      show "set ?A \<subseteq> set (neighbourhood objects dmetric (epsilon_m s) p)" by auto
      show "paint ?A ?c ids ! p = ?c" using keep [OF a(2)] pc c by simp
    next
      fix y assume "y < length objects" "FIRST_CLUSTER \<le> ids ! y"
      then show "paint ?A ?c ids ! y = ids ! y" by (rule keep)
    qed
    with expansion_inv_core [OF i sym c a(2) co]
    show "?J (rest @ filter (\<lambda>q. ids ! q = UNCLASSIFIED)
                             (neighbourhood objects dmetric (epsilon_m ?s1) p))
         (paint (filter (\<lambda>q. ids ! q = UNCLASSIFIED \<or> ids ! q = NOISE)
                   (neighbourhood objects dmetric (epsilon_m ?s1) p))
            (current_cluster_id_m ?s1) ids)"
      by simp
  next
    fix p rest ids
    assume a: "?J (p # rest) ids"
      "\<not> core_point objects dmetric (epsilon_m ?s1) (min_points_m ?s1) p"
    from a(2) have nc: "\<not> core_point objects dmetric (epsilon_m s) (min_points_m s) p" by simp
    from a(1) expansion_inv_border [OF _ nc, of ?c rest ids] show "?J rest ids" by simp
  qed
  then obtain ids'' where x: "expand_seeds objects dmetric ?W ?s1 = Some (s\<lparr>cluster_ids := ids''\<rparr>)"
    and j: "?J [] ids''"
    by auto
  from eq e x have "s\<lparr>cluster_ids := ids''\<rparr> = s\<lparr>cluster_ids := ids'\<rparr>"
    by (simp split: if_splits)
  then have "ids'' = ids'" by (rule cluster_ids_update_inject)
  with j show ?thesis by (auto intro: expansion_inv_Nil)
qed

text \<open>
  C2 as the spec has it fails on the two groups around a border point. Index 2 (the
  value -1) is a core point with the neighbourhood 0, 1, 2, 3 and ends in cluster 2; its
  neighbour at index 3, the border point, ends in cluster 3.
\<close>

theorem density_containment_counterexample:
  "dbscan two_groups abs_diff 2 4 new_density =
     Some (new_density\<lparr>cluster_ids := [2, 2, 2, 3, 3, 3, 3], medoid_ids := [2, 4], epsilon_m := 2,
             min_points_m := 4, current_cluster_id_m := 4, total_clusters_m := 2\<rparr>) \<and>
   neighbourhood two_groups abs_diff 2 2 = [0, 1, 2, 3] \<and>
   core_point two_groups abs_diff 2 4 2 \<and>
   [2, 2, 2, 3, 3, 3, 3] ! 3 \<noteq> [2, 2, 2, 3, 3, 3, 3 :: nat] ! 2"
proof -
  have "dbscan two_groups abs_diff 2 4 new_density =
     Some (new_density\<lparr>cluster_ids := [2, 2, 2, 3, 3, 3, 3], medoid_ids := [2, 4], epsilon_m := 2,
             min_points_m := 4, current_cluster_id_m := 4, total_clusters_m := 2\<rparr>)"
    by code_simp
  moreover have "neighbourhood two_groups abs_diff 2 2 = [0, 1, 2, 3]"
    by code_simp
  moreover have "core_point two_groups abs_diff 2 4 2"
    by code_simp
  ultimately show ?thesis by simp
qed

text \<open>
  C2, as the code has it, for a metric that is symmetric on the objects. After a run on
  an instance as the constructor leaves it, every member \<open>q\<close> of the neighbourhood of a
  core point \<open>p\<close> holds a cluster id; when \<open>q\<close> is a core point itself it holds the
  cluster id of \<open>p\<close>; and in every case the id it holds is the id of a core point that has
  \<open>q\<close> in its neighbourhood. So a member that is not a core point may differ from \<open>p\<close>
  only by holding the label of another core point it is close to.
\<close>

theorem density_containment:
  fixes st :: "('d::ord, 'r) density"
  assumes "fresh st"
    and sym: "\<forall>i < length objects. \<forall>j < length objects.
             dmetric (objects ! i) (objects ! j) = dmetric (objects ! j) (objects ! i)"
  shows "\<exists>st'. dbscan objects dmetric epsilon min_points st = Some st' \<and>
     (\<forall>p < length objects. core_point objects dmetric epsilon min_points p \<longrightarrow>
        (\<forall>q \<in> set (neighbourhood objects dmetric epsilon p).
           FIRST_CLUSTER \<le> cluster_ids st' ! q \<and>
           (core_point objects dmetric epsilon min_points q \<longrightarrow>
              cluster_ids st' ! q = cluster_ids st' ! p) \<and>
           (\<exists>p' < length objects. core_point objects dmetric epsilon min_points p' \<and>
              q \<in> set (neighbourhood objects dmetric epsilon p') \<and>
              cluster_ids st' ! q = cluster_ids st' ! p')))"
proof -
  let ?s0 = "dbscan_start objects epsilon min_points st"
  define I where "I = (\<lambda>k (s :: ('d, 'r) density).
     expansion_inv objects dmetric epsilon min_points 0 [] (cluster_ids s) \<and>
     supported objects dmetric epsilon min_points (cluster_ids s) \<and>
     epsilon_m s = epsilon \<and> min_points_m s = min_points \<and>
     FIRST_CLUSTER \<le> current_cluster_id_m s \<and>
     (\<forall>x < k. cluster_ids s ! x \<noteq> UNCLASSIFIED))"
  have "\<exists>st'. dbscan_loop objects dmetric [0..<length objects] ?s0 = Some st' \<and> I (length objects) st'"
  proof (rule dbscan_scan_rule [where I = I])
    have "expansion_inv objects dmetric epsilon min_points 0 [] (replicate (length objects) UNCLASSIFIED)"
      unfolding expansion_inv_def
      by (simp add: UNCLASSIFIED_def NOISE_def FIRST_CLUSTER_def)
    moreover have "supported objects dmetric epsilon min_points (replicate (length objects) UNCLASSIFIED)"
      unfolding supported_def by (simp add: UNCLASSIFIED_def FIRST_CLUSTER_def)
    ultimately show "I 0 ?s0" using assms(1) by (simp add: I_def fresh_def)
  next
    fix k and s :: "('d, 'r) density"
    assume "I k s" "cluster_ids s ! k \<noteq> UNCLASSIFIED"
    then show "I (Suc k) s" by (auto simp: I_def less_Suc_eq)
  next
    fix k and s :: "('d, 'r) density"
    assume a: "I k s" "k < length objects" "cluster_ids s ! k = UNCLASSIFIED"
      "\<not> core_point objects dmetric (epsilon_m s) (min_points_m s) k"
    from a(1) have inv: "expansion_inv objects dmetric epsilon min_points 0 [] (cluster_ids s)"
      and sup: "supported objects dmetric epsilon min_points (cluster_ids s)"
      and par: "epsilon_m s = epsilon" "min_points_m s = min_points"
      and rest: "FIRST_CLUSTER \<le> current_cluster_id_m s" "\<forall>x < k. cluster_ids s ! x \<noteq> UNCLASSIFIED"
      by (simp_all add: I_def)
    from a(4) have nc: "\<not> core_point objects dmetric epsilon min_points k" by (simp add: par)
    have "\<forall>x < Suc k. (cluster_ids s)[k := NOISE] ! x \<noteq> UNCLASSIFIED"
    proof (intro allI impI)
      fix x assume "x < Suc k"
      moreover have "k < length (cluster_ids s)" using inv a(2) by (simp add: expansion_inv_def)
      ultimately show "(cluster_ids s)[k := NOISE] ! x \<noteq> UNCLASSIFIED"
        using rest(2) by (cases "x = k") (simp_all add: NOISE_def UNCLASSIFIED_def)
    qed
    with expansion_inv_noise [OF inv a(2,3) nc] supported_noise [OF sup a(3)] par rest(1)
    show "I (Suc k) (s\<lparr>cluster_ids := (cluster_ids s)[k := NOISE]\<rparr>)"
      by (simp add: I_def)
  next
    fix k ids' and s :: "('d, 'r) density"
    assume a: "I k s" "k < length objects" "length objects \<le> length (cluster_ids s)"
      "current_cluster_id_m s \<noteq> UNCLASSIFIED" "cluster_ids s ! k = UNCLASSIFIED"
      "expand_cluster objects dmetric k s = Some (True, s\<lparr>cluster_ids := ids'\<rparr>)"
    from a(1) have inv: "expansion_inv objects dmetric (epsilon_m s) (min_points_m s) 0 [] (cluster_ids s)"
      and sup: "supported objects dmetric (epsilon_m s) (min_points_m s) (cluster_ids s)"
      and par: "epsilon_m s = epsilon" "min_points_m s = min_points"
      and rest: "FIRST_CLUSTER \<le> current_cluster_id_m s" "\<forall>x < k. cluster_ids s ! x \<noteq> UNCLASSIFIED"
      by (simp_all add: I_def)
    note s = expand_cluster_started [OF a(2,3,4,6)]
    have kk: "ids' ! k = current_cluster_id_m s"
      using s(2) a(2) by (simp add: self_in_neighbourhood)
    have "\<forall>x < Suc k. ids' ! x \<noteq> UNCLASSIFIED"
    proof (intro allI impI)
      fix x assume x: "x < Suc k"
      then have "x < length ids'" using s(1) a(2,3) by simp
      with s(3) have "ids' ! x = cluster_ids s ! x \<or> ids' ! x = current_cluster_id_m s" by simp
      then show "ids' ! x \<noteq> UNCLASSIFIED"
        using rest(2) a(4) x kk by (cases "x = k") auto
    qed
    with expand_cluster_contained [OF inv sup sym rest(1) a(2,5,6)] par rest(1)
    show "I (Suc k) (s\<lparr>cluster_ids := ids', medoid_ids := medoid_ids s @ [k],
                 current_cluster_id_m := current_cluster_id_m s + 1,
                 total_clusters_m := total_clusters_m s + 1\<rparr>)"
      by (simp add: I_def)
  qed (use assms(1) in \<open>simp_all add: fresh_def FIRST_CLUSTER_def UNCLASSIFIED_def\<close>)
  then obtain st' where e: "dbscan objects dmetric epsilon min_points st = Some st'"
    and inv: "expansion_inv objects dmetric epsilon min_points 0 [] (cluster_ids st')"
    and sup: "supported objects dmetric epsilon min_points (cluster_ids st')"
    and all: "\<forall>x < length objects. cluster_ids st' ! x \<noteq> UNCLASSIFIED"
    unfolding dbscan_def I_def by blast
  have "\<forall>q \<in> set (neighbourhood objects dmetric epsilon p).
           FIRST_CLUSTER \<le> cluster_ids st' ! q \<and>
           (core_point objects dmetric epsilon min_points q \<longrightarrow>
              cluster_ids st' ! q = cluster_ids st' ! p) \<and>
           (\<exists>p' < length objects. core_point objects dmetric epsilon min_points p' \<and>
              q \<in> set (neighbourhood objects dmetric epsilon p') \<and>
              cluster_ids st' ! q = cluster_ids st' ! p')"
    if p: "p < length objects" "core_point objects dmetric epsilon min_points p" for p
  proof (intro ballI)
    fix q assume q: "q \<in> set (neighbourhood objects dmetric epsilon p)"
    then have qn: "q < length objects" by (rule neighbourhood_bound)
    from inv p have "cluster_ids st' ! p \<noteq> NOISE" by (simp add: expansion_inv_def)
    with all p(1) label_cases [of "cluster_ids st' ! p"]
    have "FIRST_CLUSTER \<le> cluster_ids st' ! p" by simp
    with inv p have "closed_core objects dmetric epsilon min_points (cluster_ids st') p"
      by (simp add: expansion_inv_def)
    with q have c: "FIRST_CLUSTER \<le> cluster_ids st' ! q"
      "core_point objects dmetric epsilon min_points q \<longrightarrow>
         cluster_ids st' ! q = cluster_ids st' ! p"
      by (simp_all add: closed_core_def)
    from sup qn c(1) obtain p' where "p' < length objects"
      "core_point objects dmetric epsilon min_points p'"
      "q \<in> set (neighbourhood objects dmetric epsilon p')"
      "cluster_ids st' ! p' = cluster_ids st' ! q"
      unfolding supported_def by blast
    then have "\<exists>p' < length objects. core_point objects dmetric epsilon min_points p' \<and>
              q \<in> set (neighbourhood objects dmetric epsilon p') \<and>
              cluster_ids st' ! q = cluster_ids st' ! p'"
      by auto
    with c show "FIRST_CLUSTER \<le> cluster_ids st' ! q \<and>
           (core_point objects dmetric epsilon min_points q \<longrightarrow>
              cluster_ids st' ! q = cluster_ids st' ! p) \<and>
           (\<exists>p' < length objects. core_point objects dmetric epsilon min_points p' \<and>
              q \<in> set (neighbourhood objects dmetric epsilon p') \<and>
              cluster_ids st' ! q = cluster_ids st' ! p')"
      by blast
  qed
  with e show ?thesis by blast
qed

theorem density_containment_witness:
  "fresh new_density \<and>
   dbscan shared_border abs_diff 2 6 new_density =
     Some (new_density\<lparr>cluster_ids := [2, 2, 2, 2, 2, 3, 3, 3, 3, 3, 3], medoid_ids := [3, 6],
             epsilon_m := 2, min_points_m := 6, current_cluster_id_m := 4, total_clusters_m := 2\<rparr>) \<and>
   (3::nat) < length shared_border \<and> core_point shared_border abs_diff 2 6 3 \<and>
   neighbourhood shared_border abs_diff 2 3 = [0, 1, 2, 3, 4, 5] \<and>
   core_point shared_border abs_diff 2 6 4 \<and> \<not> core_point shared_border abs_diff 2 6 5 \<and>
   [2, 2, 2, 2, 2, 3, 3, 3, 3, 3, 3] ! 4 = [2, 2, 2, 2, 2, 3, 3, 3, 3, 3, 3 :: nat] ! 3 \<and>
   FIRST_CLUSTER \<le> [2, 2, 2, 2, 2, 3, 3, 3, 3, 3, 3] ! 5 \<and>
   (6::nat) < length shared_border \<and> core_point shared_border abs_diff 2 6 6 \<and>
   5 \<in> set (neighbourhood shared_border abs_diff 2 6) \<and>
   [2, 2, 2, 2, 2, 3, 3, 3, 3, 3, 3] ! 5 = [2, 2, 2, 2, 2, 3, 3, 3, 3, 3, 3 :: nat] ! 6"
proof -
  have f: "fresh new_density" by (simp add: fresh_def new_density_def)
  have sym: "\<forall>i < length shared_border. \<forall>j < length shared_border.
      abs_diff (shared_border ! i) (shared_border ! j) = abs_diff (shared_border ! j) (shared_border ! i)"
    by (simp add: abs_diff_def abs_minus_commute)
  have e: "dbscan shared_border abs_diff 2 6 new_density =
     Some (new_density\<lparr>cluster_ids := [2, 2, 2, 2, 2, 3, 3, 3, 3, 3, 3], medoid_ids := [3, 6],
             epsilon_m := 2, min_points_m := 6, current_cluster_id_m := 4, total_clusters_m := 2\<rparr>)"
    by code_simp
  have p: "(3::nat) < length shared_border" "(6::nat) < length shared_border"
    by (simp_all add: shared_border_def)
  have c: "core_point shared_border abs_diff 2 6 3" "core_point shared_border abs_diff 2 6 4"
    "\<not> core_point shared_border abs_diff 2 6 5" "core_point shared_border abs_diff 2 6 6"
    by code_simp+
  have n: "neighbourhood shared_border abs_diff 2 3 = [0, 1, 2, 3, 4, 5]"
    "neighbourhood shared_border abs_diff 2 6 = [5, 6, 7, 8, 9, 10]"
    by code_simp+
  then have q: "4 \<in> set (neighbourhood shared_border abs_diff 2 3)"
    "5 \<in> set (neighbourhood shared_border abs_diff 2 3)"
    "5 \<in> set (neighbourhood shared_border abs_diff 2 6)"
    by simp_all
  from density_containment [OF f sym, of 2 6] e obtain
    all: "\<forall>p < length shared_border. core_point shared_border abs_diff 2 6 p \<longrightarrow>
        (\<forall>q \<in> set (neighbourhood shared_border abs_diff 2 p).
           FIRST_CLUSTER \<le> [2, 2, 2, 2, 2, 3, 3, 3, 3, 3, 3] ! q \<and>
           (core_point shared_border abs_diff 2 6 q \<longrightarrow>
              [2, 2, 2, 2, 2, 3, 3, 3, 3, 3, 3] ! q = [2, 2, 2, 2, 2, 3, 3, 3, 3, 3, 3 :: nat] ! p))"
    by auto
  from all p(1) c(1) q(1) c(2)
  have same: "[2, 2, 2, 2, 2, 3, 3, 3, 3, 3, 3] ! 4 = [2, 2, 2, 2, 2, 3, 3, 3, 3, 3, 3 :: nat] ! 3"
    by blast
  from all p(1) c(1) q(2)
  have lab: "FIRST_CLUSTER \<le> [2, 2, 2, 2, 2, 3, 3, 3, 3, 3, 3] ! 5"
    by blast
  have "[2, 2, 2, 2, 2, 3, 3, 3, 3, 3, 3] ! 5 = [2, 2, 2, 2, 2, 3, 3, 3, 3, 3, 3 :: nat] ! 6"
    by simp
  with f e p c n(1) q(3) same lab show ?thesis by blast
qed

end
